theory Spec2Isabelle
  imports Main
begin

section \<open>Python built-ins used by the two scripts\<close>

text \<open>
  Python strings are modelled as HOL strings.  The character classes below are the
  ASCII part of what Python's \<^verbatim>\<open>str.strip()\<close>, \<^verbatim>\<open>str.splitlines()\<close> and
  \<^verbatim>\<open>int()\<close> use; text outside ASCII is not interpreted by the model.  Output of a
  program that cannot be decoded as text, for which \<^verbatim>\<open>subprocess.run\<close> raises
  \<^verbatim>\<open>UnicodeDecodeError\<close>, is not modelled either.
\<close>

abbreviation TAB :: char where "TAB \<equiv> CHR 0x09"
abbreviation LF :: char where "LF \<equiv> CHR 0x0A"
abbreviation CR :: char where "CR \<equiv> CHR 0x0D"

text \<open>\<^verbatim>\<open>str.isspace\<close> on one ASCII character: TAB, LF, VT, FF, CR, FS, GS, RS, US, space.\<close>

definition is_space :: "char \<Rightarrow> bool" where
  "is_space c = (c \<in> set [CHR 0x09, CHR 0x0A, CHR 0x0B, CHR 0x0C, CHR 0x0D,
                          CHR 0x1C, CHR 0x1D, CHR 0x1E, CHR 0x1F, CHR 0x20])"

text \<open>The ASCII line boundaries of \<^verbatim>\<open>str.splitlines\<close>: LF, VT, FF, CR, FS, GS, RS.\<close>

definition is_linebreak :: "char \<Rightarrow> bool" where
  "is_linebreak c = (c \<in> set [CHR 0x0A, CHR 0x0B, CHR 0x0C, CHR 0x0D,
                              CHR 0x1C, CHR 0x1D, CHR 0x1E])"

text \<open>\<^verbatim>\<open>s.strip(chars)\<close> with the set of stripped characters as a predicate.\<close>

definition strip_chars :: "(char \<Rightarrow> bool) \<Rightarrow> string \<Rightarrow> string" where
  "strip_chars p s = rev (dropWhile p (rev (dropWhile p s)))"

text \<open>\<^verbatim>\<open>s.strip()\<close>\<close>

definition strip :: "string \<Rightarrow> string" where
  "strip s = strip_chars is_space s"

text \<open>
  \<^verbatim>\<open>s.splitlines()\<close>: the first argument is the line read so far.  CR LF is one
  boundary; a boundary at the very end opens no further line; the empty string has no
  line.
\<close>

fun splitlines_from :: "string \<Rightarrow> string \<Rightarrow> string list" where
  "splitlines_from cur [] = (if cur = [] then [] else [cur])"
| "splitlines_from cur [c] = (if is_linebreak c then [cur] else [cur @ [c]])"
| "splitlines_from cur (c # d # cs) =
     (if c = CR \<and> d = LF then cur # splitlines_from [] cs
      else if is_linebreak c then cur # splitlines_from [] (d # cs)
      else splitlines_from (cur @ [c]) (d # cs))"

definition splitlines :: "string \<Rightarrow> string list" where
  "splitlines s = splitlines_from [] s"

text \<open>\<^verbatim>\<open>line.split("\t", 1)\<close> on a line that contains a TAB: the text before the first
  TAB and the text after it.\<close>

definition split_tab :: "string \<Rightarrow> string \<times> string" where
  "split_tab line = (takeWhile (\<lambda>c. c \<noteq> TAB) line, tl (dropWhile (\<lambda>c. c \<noteq> TAB) line))"

text \<open>Decimal digits.\<close>

definition is_digit :: "char \<Rightarrow> bool" where
  "is_digit c = (48 \<le> (of_char c :: nat) \<and> (of_char c :: nat) \<le> 57)"

definition digit_val :: "char \<Rightarrow> nat" where
  "digit_val c = of_char c - 48"

definition digit_char :: "nat \<Rightarrow> char" where
  "digit_char d = ''0123456789'' ! d"

text \<open>\<^verbatim>\<open>str(n)\<close> for a natural number, and \<^verbatim>\<open>str(i)\<close> (also \<^verbatim>\<open>f"{i}"\<close>) for an
  integer.\<close>

function str_nat :: "nat \<Rightarrow> string" where
  "str_nat n = (if n < 10 then [digit_char n] else str_nat (n div 10) @ [digit_char (n mod 10)])"
  by pat_completeness auto
termination
  by (relation "measure id") auto

declare str_nat.simps [simp del]

definition str_int :: "int \<Rightarrow> string" where
  "str_int i = (if i < 0 then CHR ''-'' # str_nat (nat (- i)) else str_nat (nat i))"

text \<open>
  \<^verbatim>\<open>int(s)\<close> in base 10: surrounding whitespace is ignored, one sign is allowed, and
  the digits may be grouped by single underscores.  \<open>None\<close> is Python's
  \<^verbatim>\<open>ValueError\<close>.  The limit of 4300 digits, beyond which \<^verbatim>\<open>int()\<close> raises
  \<^verbatim>\<open>ValueError\<close> as well, is not modelled.
\<close>

fun int_digits :: "nat \<Rightarrow> string \<Rightarrow> nat option" where
  "int_digits acc [] = Some acc"
| "int_digits acc (c # cs) =
     (if is_digit c then int_digits (10 * acc + digit_val c) cs
      else if c = CHR ''_'' then
        (case cs of
           [] \<Rightarrow> None
         | d # ds \<Rightarrow> if is_digit d then int_digits (10 * acc + digit_val d) ds else None)
      else None)"

definition int_unsigned :: "string \<Rightarrow> int option" where
  "int_unsigned s =
     (case s of
        [] \<Rightarrow> None
      | c # cs \<Rightarrow> if is_digit c then map_option int (int_digits (digit_val c) cs) else None)"

definition py_int :: "string \<Rightarrow> int option" where
  "py_int s =
     (case strip s of
        [] \<Rightarrow> None
      | c # cs \<Rightarrow>
          if c = CHR ''-'' then map_option uminus (int_unsigned cs)
          else if c = CHR ''+'' then int_unsigned cs
          else int_unsigned (c # cs))"

text \<open>
  A \<^verbatim>\<open>datetime\<close> value, and the two \<^verbatim>\<open>strftime\<close> formats of the backup script.
  Each field is printed in decimal, padded with zeros to its width.  For a year below
  1000 the C library decides whether \<^verbatim>\<open>%Y\<close> pads; the properties of the printed
  forms are stated for years of four digits.
\<close>

record datetime =
  year :: nat
  month :: nat
  day :: nat
  hour :: nat
  minute :: nat
  second :: nat
  microsecond :: nat

definition zero_pad :: "nat \<Rightarrow> nat \<Rightarrow> string" where
  "zero_pad w n = replicate (w - length (str_nat n)) (CHR ''0'') @ str_nat n"

text \<open>\<^verbatim>\<open>dt.strftime("%Y-%m-%d %H:%M:%S")\<close>\<close>

definition strftime_restic :: "datetime \<Rightarrow> string" where
  "strftime_restic dt =
     zero_pad 4 (year dt) @ ''-'' @ zero_pad 2 (month dt) @ ''-'' @ zero_pad 2 (day dt) @ '' '' @
     zero_pad 2 (hour dt) @ '':'' @ zero_pad 2 (minute dt) @ '':'' @ zero_pad 2 (second dt)"

text \<open>\<^verbatim>\<open>dt.strftime("%Y%m%d-%H%M%S")\<close>\<close>

definition strftime_snap :: "datetime \<Rightarrow> string" where
  "strftime_snap dt =
     zero_pad 4 (year dt) @ zero_pad 2 (month dt) @ zero_pad 2 (day dt) @ ''-'' @
     zero_pad 2 (hour dt) @ zero_pad 2 (minute dt) @ zero_pad 2 (second dt)"

section \<open>zfs-restic-backup.py: snapshot name and command line\<close>

text \<open>
  Lines 208 to 210 of \<^verbatim>\<open>main\<close>.  The host name is
  \<^verbatim>\<open>re.sub(r"[^a-zA-Z0-9-]", "-", nodename).strip("-") or "host"\<close>, and the name is
  \<^verbatim>\<open>f"zfs-restic-{pid}-{hostname}-{snap_ts.strftime('%Y%m%d-%H%M%S')}"\<close>.
\<close>

definition is_host_char :: "char \<Rightarrow> bool" where
  "is_host_char c =
     (let n = (of_char c :: nat)
      in (97 \<le> n \<and> n \<le> 122) \<or> (65 \<le> n \<and> n \<le> 90) \<or> (48 \<le> n \<and> n \<le> 57) \<or> c = CHR ''-'')"

definition hostname_of :: "string \<Rightarrow> string" where
  "hostname_of nodename =
     (let h = strip_chars (\<lambda>c. c = CHR ''-'')
                (map (\<lambda>c. if is_host_char c then c else CHR ''-'') nodename)
      in if h = [] then ''host'' else h)"

definition snap_name_of :: "int \<Rightarrow> string \<Rightarrow> datetime \<Rightarrow> string" where
  "snap_name_of pid nodename snap_ts =
     ''zfs-restic-'' @ str_int pid @ ''-'' @ hostname_of nodename @ ''-'' @ strftime_snap snap_ts"

text \<open>
  \<^verbatim>\<open>parse_args\<close>.  The \<^verbatim>\<open>while\<close> loop consumes leading
  \<^verbatim>\<open>--restic-bin <path>\<close> pairs; the first argument is the value of
  \<^verbatim>\<open>restic_bin\<close> so far.  \<^verbatim>\<open>args.index("--")\<close> is the position of the first
  \<^verbatim>\<open>--\<close>, so \<^verbatim>\<open>args[idx + 1:]\<close> is what follows it.
\<close>

fun parse_args_from :: "string option \<Rightarrow> string list \<Rightarrow> string option \<times> string \<times> string list" where
  "parse_args_from restic_bin [] = (restic_bin, [], [])"
| "parse_args_from restic_bin (a # args) =
     (if a = ''--restic-bin'' then
        (case args of
           [] \<Rightarrow> (Some [], [], [])
         | v # rest \<Rightarrow> parse_args_from (Some (strip v)) rest)
      else if ''--'' \<in> set (a # args) then
        (restic_bin, strip a, tl (dropWhile (\<lambda>x. x \<noteq> ''--'') (a # args)))
      else (restic_bin, strip a, []))"

definition parse_args :: "string list \<Rightarrow> string option \<times> string \<times> string list" where
  "parse_args argv = parse_args_from None argv"

section \<open>External processes and the file system\<close>

text \<open>
  \<^verbatim>\<open>subprocess.run\<close> either fails to start the program (an \<^verbatim>\<open>OSError\<close>, of
  which \<^verbatim>\<open>FileNotFoundError\<close> is the one the backup script catches) or returns a
  \<^verbatim>\<open>CompletedProcess\<close>.  With \<^verbatim>\<open>check=True\<close> a nonzero exit status is turned
  into \<^verbatim>\<open>CalledProcessError\<close>.
\<close>

datatype os_error = FileNotFoundError | OtherOSError

datatype exn = OSError os_error | ValueError | OverflowError | CalledProcessError int

record completed =
  returncode :: int
  stdout :: string
  stderr :: string

text \<open>One invocation of \<^verbatim>\<open>subprocess.run\<close>, as the scripts issued it, with what came
  back.\<close>

record call =
  argv :: "string list"
  check :: bool
  capture :: bool
  cwd :: "string option"
  outcome :: "os_error + completed"

text \<open>
  Everything outside the scripts: the programs they start (\<open>spawn\<close> takes the
  command, whether output is captured and the working directory, and may change the
  world \<open>'w\<close>), the file-system tests of \<^verbatim>\<open>pathlib\<close> and \<^verbatim>\<open>os\<close>,
  \<^verbatim>\<open>os.path.abspath\<close>, \<^verbatim>\<open>Path.resolve\<close> and \<^verbatim>\<open>datetime.fromtimestamp\<close>
  (local time, so it depends on the time zone of the process).
\<close>

record 'w system =
  spawn :: "string list \<Rightarrow> bool \<Rightarrow> string option \<Rightarrow> 'w \<Rightarrow> (os_error + completed) \<times> 'w"
  is_file :: "'w \<Rightarrow> string \<Rightarrow> bool"
  is_dir :: "'w \<Rightarrow> string \<Rightarrow> bool"
  access_x_ok :: "'w \<Rightarrow> string \<Rightarrow> bool"
  abspath :: "string \<Rightarrow> string"
  resolve :: "'w \<Rightarrow> string \<Rightarrow> string"
  fromtimestamp :: "int \<Rightarrow> exn + datetime"

text \<open>
  A computation of the scripts: from a world to a value or a raised exception, the calls
  issued in order, and the world afterwards.
\<close>

type_synonym ('w, 'a) io = "'w \<Rightarrow> (exn + 'a) \<times> call list \<times> 'w"

definition ret :: "'a \<Rightarrow> ('w, 'a) io" where
  "ret x w = (Inr x, [], w)"

definition seq :: "('w, 'a) io \<Rightarrow> ('a \<Rightarrow> ('w, 'b) io) \<Rightarrow> ('w, 'b) io" where
  "seq m f w =
     (case m w of
        (Inl e, cs, w') \<Rightarrow> (Inl e, cs, w')
      | (Inr x, cs, w') \<Rightarrow> (case f x w' of (r, cs', w'') \<Rightarrow> (r, cs @ cs', w'')))"

definition subprocess_run ::
  "'w system \<Rightarrow> string list \<Rightarrow> bool \<Rightarrow> bool \<Rightarrow> string option \<Rightarrow> ('w, completed) io" where
  "subprocess_run sys cmd chk cap dir w =
     (case spawn sys cmd cap dir w of
        (Inl e, w') \<Rightarrow>
          (Inl (OSError e),
           [\<lparr>argv = cmd, check = chk, capture = cap, cwd = dir, outcome = Inl e\<rparr>], w')
      | (Inr r, w') \<Rightarrow>
          (if chk \<and> returncode r \<noteq> 0 then Inl (CalledProcessError (returncode r)) else Inr r,
           [\<lparr>argv = cmd, check = chk, capture = cap, cwd = dir, outcome = Inr r\<rparr>], w'))"

text \<open>Python's truth test on a value of type \<^verbatim>\<open>str | None\<close>.\<close>

definition truthy :: "string option \<Rightarrow> bool" where
  "truthy v = (case v of None \<Rightarrow> False | Some s \<Rightarrow> s \<noteq> [])"

section \<open>zfs-check-unlocked.py\<close>

text \<open>\<^verbatim>\<open>run_cmd(cmd, capture=True)\<close> of the check script: always \<^verbatim>\<open>check=False\<close>.\<close>

definition run_cmd_cu :: "'w system \<Rightarrow> string list \<Rightarrow> bool \<Rightarrow> ('w, completed) io" where
  "run_cmd_cu sys cmd cap = subprocess_run sys cmd False cap None"

text \<open>The \<^verbatim>\<open>for line in ...\<close> loop of \<^verbatim>\<open>get_dataset_for_path\<close>, in both scripts.\<close>

fun find_mountpoint :: "string \<Rightarrow> string list \<Rightarrow> string option" where
  "find_mountpoint path [] = None"
| "find_mountpoint path (line # rest) =
     (if TAB \<in> set line then
        (case split_tab line of
           (name, mnt) \<Rightarrow> if mnt = path then Some name else find_mountpoint path rest)
      else find_mountpoint path rest)"

definition get_dataset_for_path_cu :: "'w system \<Rightarrow> string \<Rightarrow> ('w, string option) io" where
  "get_dataset_for_path_cu sys path =
     seq (run_cmd_cu sys [''zfs'', ''list'', ''-H'', ''-o'', ''name,mountpoint''] True)
       (\<lambda>result. ret (if returncode result \<noteq> 0 then None
                       else find_mountpoint path (splitlines (strip (stdout result)))))"

definition get_encryption_root_cu :: "'w system \<Rightarrow> string \<Rightarrow> ('w, string option) io" where
  "get_encryption_root_cu sys dataset =
     seq (run_cmd_cu sys [''zfs'', ''get'', ''-H'', ''-o'', ''value'', ''encryptionroot'', dataset] True)
       (\<lambda>result. ret (if returncode result \<noteq> 0 then None
                       else (let v = strip (stdout result)
                             in if v = [] \<or> v = ''-'' then None else Some v)))"

definition get_keystatus_cu :: "'w system \<Rightarrow> string \<Rightarrow> ('w, string option) io" where
  "get_keystatus_cu sys dataset =
     seq (run_cmd_cu sys [''zfs'', ''get'', ''-H'', ''-o'', ''value'', ''keystatus'', dataset] True)
       (\<lambda>result. ret (if returncode result \<noteq> 0 then None
                       else (let v = strip (stdout result) in if v = [] then None else Some v)))"

text \<open>\<^verbatim>\<open>f"{status}"\<close> for a value of type \<^verbatim>\<open>str | None\<close>.\<close>

definition fmt_opt :: "string option \<Rightarrow> string" where
  "fmt_opt v = (case v of None \<Rightarrow> ''None'' | Some s \<Rightarrow> s)"

text \<open>The three messages of \<^verbatim>\<open>check_path\<close>.  The bytes before \<^verbatim>\<open>unlock\<close> are
  those of the source file.\<close>

definition msg_no_dataset :: "string \<Rightarrow> string" where
  "msg_no_dataset resolved = ''No ZFS dataset with mountpoint: '' @ resolved"

definition msg_locked :: "string \<Rightarrow> string \<Rightarrow> string" where
  "msg_locked resolved enc_root =
     ''Dataset is LOCKED: '' @ resolved @ '' (encryption root '' @ enc_root @ '') '' @
     [CHR 0xC3, CHR 0xA2, CHR 0xE2, CHR 0x82, CHR 0xAC, CHR 0xE2, CHR 0x80, CHR 0x9D] @
     '' unlock the dataset first''"

definition msg_unexpected :: "string option \<Rightarrow> string \<Rightarrow> string \<Rightarrow> string" where
  "msg_unexpected status enc_root resolved =
     ''Unexpected keystatus '' @ [CHR 0x27] @ fmt_opt status @ [CHR 0x27] @ '' for '' @ enc_root @
     '' ('' @ resolved @ '')''"

text \<open>\<^verbatim>\<open>check_path\<close>: \<open>None\<close> when the path is fine, else the message.\<close>

definition check_path :: "'w system \<Rightarrow> string \<Rightarrow> ('w, string option) io" where
  "check_path sys path =
     (let resolved = abspath sys path
      in seq (get_dataset_for_path_cu sys resolved)
           (\<lambda>ds. if \<not> truthy ds then ret (Some (msg_no_dataset resolved))
                  else seq (get_encryption_root_cu sys (fmt_opt ds))
                    (\<lambda>enc_root.
                       if \<not> truthy enc_root then ret None
                       else seq (get_keystatus_cu sys (fmt_opt enc_root))
                         (\<lambda>status.
                            if status = Some ''unavailable'' \<or> status = Some ''locked''
                            then ret (Some (msg_locked resolved (fmt_opt enc_root)))
                            else if status \<noteq> Some ''available''
                            then ret (Some (msg_unexpected status (fmt_opt enc_root) resolved))
                            else ret None))))"

text \<open>
  The loop of \<^verbatim>\<open>main\<close> over \<^verbatim>\<open>sys.argv[1:]\<close>, with the flag \<^verbatim>\<open>failed\<close> so
  far.  The result carries the messages printed to standard error, one entry for each
  \<^verbatim>\<open>print\<close>.
\<close>

fun check_paths ::
  "'w system \<Rightarrow> string list \<Rightarrow> bool \<Rightarrow> 'w \<Rightarrow> (exn + bool) \<times> string list \<times> call list \<times> 'w" where
  "check_paths sys [] failed w = (Inr failed, [], [], w)"
| "check_paths sys (p # ps) failed w =
     (let path = strip p
      in if path = [] then check_paths sys ps failed w
         else (case check_path sys path w of
                 (Inl e, cs, w') \<Rightarrow> (Inl e, [], cs, w')
               | (Inr err, cs, w') \<Rightarrow>
                   if truthy err then
                     (case check_paths sys ps True w' of
                        (r, out, cs', w'') \<Rightarrow> (r, fmt_opt err # out, cs @ cs', w''))
                   else
                     (case check_paths sys ps failed w' of
                        (r, out, cs', w'') \<Rightarrow> (r, out, cs @ cs', w''))))"

definition main_cu ::
  "'w system \<Rightarrow> string list \<Rightarrow> 'w \<Rightarrow> (exn + int) \<times> string list \<times> call list \<times> 'w" where
  "main_cu sys sys_argv w =
     (if length sys_argv < 2
      then (Inr 1, [''Usage: zfs-check-unlocked.py <path> [<path> ...]''], [], w)
      else (case check_paths sys (tl sys_argv) False w of
              (Inl e, out, cs, w') \<Rightarrow> (Inl e, out, cs, w')
            | (Inr failed, out, cs, w') \<Rightarrow> (Inr (if failed then 1 else 0), out, cs, w')))"

section \<open>zfs-restic-backup.py\<close>

text \<open>\<^verbatim>\<open>run_cmd(cmd, check=True, capture=False, cwd=None)\<close> of the backup script: the
  flag \<^verbatim>\<open>check\<close> is handed to \<^verbatim>\<open>subprocess.run\<close>.\<close>

definition run_cmd ::
  "'w system \<Rightarrow> string list \<Rightarrow> bool \<Rightarrow> bool \<Rightarrow> string option \<Rightarrow> ('w, completed) io" where
  "run_cmd sys cmd chk cap dir = subprocess_run sys cmd chk cap dir"

definition get_dataset_for_path :: "'w system \<Rightarrow> string \<Rightarrow> ('w, string option) io" where
  "get_dataset_for_path sys path =
     seq (run_cmd sys [''zfs'', ''list'', ''-H'', ''-o'', ''name,mountpoint''] False True None)
       (\<lambda>result. ret (if returncode result \<noteq> 0 then None
                       else find_mountpoint path (splitlines (strip (stdout result)))))"

definition get_encryption_root :: "'w system \<Rightarrow> string \<Rightarrow> ('w, string option) io" where
  "get_encryption_root sys dataset =
     seq (run_cmd sys [''zfs'', ''get'', ''-H'', ''-o'', ''value'', ''encryptionroot'', dataset]
            False True None)
       (\<lambda>result. ret (if returncode result \<noteq> 0 then None
                       else (let v = strip (stdout result)
                             in if v = [] \<or> v = ''-'' then None else Some v)))"

definition get_keystatus :: "'w system \<Rightarrow> string \<Rightarrow> ('w, string option) io" where
  "get_keystatus sys dataset =
     seq (run_cmd sys [''zfs'', ''get'', ''-H'', ''-o'', ''value'', ''keystatus'', dataset]
            False True None)
       (\<lambda>result. ret (if returncode result \<noteq> 0 then None
                       else (let v = strip (stdout result) in if v = [] then None else Some v)))"

text \<open>
  Lines 115 to 127 of \<^verbatim>\<open>get_snapshot_creation_time\<close>: what is made of the completed
  \<^verbatim>\<open>zfs get creation\<close>.  The \<^verbatim>\<open>except\<close> clause catches \<^verbatim>\<open>ValueError\<close> and
  \<^verbatim>\<open>OSError\<close> only.
\<close>

definition creation_time_of :: "'w system \<Rightarrow> completed \<Rightarrow> exn + string option" where
  "creation_time_of sys result =
     (if returncode result \<noteq> 0 then Inr None
      else (let raw = strip (stdout result)
            in if raw = [] then Inr None
               else (case py_int raw of
                       None \<Rightarrow> Inr None
                     | Some epoch \<Rightarrow>
                         (case fromtimestamp sys
                                 (if epoch > 10 ^ 12 then epoch div 1000000000 else epoch) of
                            Inr dt \<Rightarrow> Inr (Some (strftime_restic dt))
                          | Inl ValueError \<Rightarrow> Inr None
                          | Inl (OSError e) \<Rightarrow> Inr None
                          | Inl e \<Rightarrow> Inl e))))"

definition get_snapshot_creation_time :: "'w system \<Rightarrow> string \<Rightarrow> ('w, string option) io" where
  "get_snapshot_creation_time sys snapshot_spec =
     seq (run_cmd sys [''zfs'', ''get'', ''-H'', ''-p'', ''-o'', ''value'', ''creation'', snapshot_spec]
            False True None)
       (\<lambda>result w. (creation_time_of sys result, [], w))"

text \<open>
  What \<^verbatim>\<open>main\<close> reads of its process: \<^verbatim>\<open>sys.argv\<close>, \<^verbatim>\<open>os.getpid()\<close>,
  \<^verbatim>\<open>os.uname().nodename\<close> and the \<^verbatim>\<open>datetime.now()\<close> of line 209.
\<close>

record process =
  sys_argv :: "string list"
  getpid :: int
  nodename :: string
  snap_ts :: datetime

text \<open>
  \<^verbatim>\<open>main\<close> is one function with many \<^verbatim>\<open>return\<close> statements.  It is modelled in
  three parts that follow its own section comments; a part either makes \<^verbatim>\<open>main\<close>
  return or hands its values on.  The calls to \<^verbatim>\<open>log\<close> and \<^verbatim>\<open>script_sha256\<close>
  only print and are left out.
\<close>

datatype 'a step = Return int | Continue 'a

text \<open>Lines 161 to 170: the command that runs restic, or \<open>None\<close> where \<^verbatim>\<open>main\<close>
  returns 1.\<close>

definition restic_command :: "'w system \<Rightarrow> 'w \<Rightarrow> string option \<Rightarrow> string option" where
  "restic_command sys w restic_bin =
     (case restic_bin of
        None \<Rightarrow> Some ''restic''
      | Some b \<Rightarrow>
          if b = [] then Some ''restic''
          else (let restic_bin_path = resolve sys w b
                in if \<not> is_file sys w restic_bin_path then None
                   else if \<not> access_x_ok sys w restic_bin_path then None
                   else Some restic_bin_path))"

text \<open>Lines 183 to 201: the loop over \<^verbatim>\<open>version_cmds\<close>.  \<open>False\<close> is
  \<^verbatim>\<open>return 1\<close>.\<close>

fun version_checks :: "'w system \<Rightarrow> (string \<times> string list) list \<Rightarrow> ('w, bool) io" where
  "version_checks sys [] w = (Inr True, [], w)"
| "version_checks sys ((name, cmd) # rest) w =
     (case subprocess_run sys cmd False True None w of
        (Inl (OSError FileNotFoundError), cs, w') \<Rightarrow> (Inr False, cs, w')
      | (Inl e, cs, w') \<Rightarrow> (Inl e, cs, w')
      | (Inr result, cs, w') \<Rightarrow>
          if returncode result \<noteq> 0 then (Inr False, cs, w')
          else (case version_checks sys rest w' of (r, cs', w'') \<Rightarrow> (r, cs @ cs', w'')))"

text \<open>\<^verbatim>\<open>Path(base) / child\<close> as a string, for a \<open>base\<close> that \<^verbatim>\<open>os.path.abspath\<close>
  returned and a relative \<open>child\<close>.\<close>

definition path_join :: "string \<Rightarrow> string \<Rightarrow> string" where
  "path_join base child =
     (if base = [] then child
      else if last base = CHR ''/'' then base @ child
      else base @ ''/'' @ child)"

text \<open>Line 243.\<close>

definition snapshot_dir_of :: "string \<Rightarrow> string \<Rightarrow> string" where
  "snapshot_dir_of source_path snap_name =
     path_join (path_join (path_join source_path ''.zfs'') ''snapshot'') snap_name"

text \<open>Lines 151 to 210: command line, restic binary, version queries, the path, and the
  snapshot name.  It hands on \<^verbatim>\<open>restic_cmd\<close>, \<^verbatim>\<open>source_path\<close>,
  \<^verbatim>\<open>snap_name\<close> and \<^verbatim>\<open>restic_cli_args\<close>.\<close>

definition main_preflight ::
  "'w system \<Rightarrow> process \<Rightarrow> ('w, (string \<times> string \<times> string \<times> string list) step) io" where
  "main_preflight sys proc w =
     (case parse_args (tl (sys_argv proc)) of
        (restic_bin, mount_point, restic_cli_args) \<Rightarrow>
          if mount_point = [] then (Inr (Return 1), [], w)
          else (case restic_command sys w restic_bin of
                  None \<Rightarrow> (Inr (Return 1), [], w)
                | Some restic_cmd \<Rightarrow>
                    (let source_path = abspath sys mount_point
                     in (case version_checks sys
                                 [(''zfs'', [''zfs'', ''version'']),
                                  (''restic'', [restic_cmd, ''version''])] w of
                           (Inl e, cs, w') \<Rightarrow> (Inl e, cs, w')
                         | (Inr ok, cs, w') \<Rightarrow>
                             if \<not> ok then (Inr (Return 1), cs, w')
                             else if \<not> is_dir sys w' source_path then (Inr (Return 1), cs, w')
                             else (Inr (Continue
                                     (restic_cmd, source_path,
                                      snap_name_of (getpid proc) (nodename proc) (snap_ts proc),
                                      restic_cli_args)), cs, w')))))"

text \<open>Lines 212 to 229: the lock check.  It hands on the dataset \<^verbatim>\<open>ds\<close>.\<close>

definition main_lock_check :: "'w system \<Rightarrow> string \<Rightarrow> ('w, string step) io" where
  "main_lock_check sys source_path =
     seq (get_dataset_for_path sys source_path)
       (\<lambda>ds. if \<not> truthy ds then ret (Return 1)
              else seq (get_encryption_root sys (fmt_opt ds))
                (\<lambda>enc_root.
                   if truthy enc_root then
                     seq (get_keystatus sys (fmt_opt enc_root))
                       (\<lambda>status.
                          if status = Some ''unavailable'' \<or> status = Some ''locked''
                          then ret (Return 1)
                          else if status \<noteq> Some ''available'' then ret (Return 1)
                          else ret (Continue (fmt_opt ds)))
                   else ret (Continue (fmt_opt ds))))"

text \<open>Lines 249 to 266: the restic run, and the destruction of the snapshot after a
  successful one.\<close>

definition main_backup ::
  "'w system \<Rightarrow> string \<Rightarrow> string \<Rightarrow> string list \<Rightarrow> string \<Rightarrow> string \<Rightarrow> ('w, int) io" where
  "main_backup sys restic_cmd restic_time restic_cli_args snapshot_dir snapshot_spec =
     seq (run_cmd sys ([restic_cmd, ''backup'', ''--time'', restic_time, ''.''] @ restic_cli_args)
            False False (Some snapshot_dir))
       (\<lambda>result. if returncode result \<noteq> 0 then ret (returncode result)
                  else seq (run_cmd sys [''zfs'', ''destroy'', snapshot_spec] False False None)
                         (\<lambda>_. ret 0))"

text \<open>Lines 231 to 247, then the restic run: the snapshot is created with
  \<^verbatim>\<open>check=True\<close>, its creation time is read, and its directory is tested.\<close>

definition main_snapshot ::
  "'w system \<Rightarrow> string \<Rightarrow> string list \<Rightarrow> string \<Rightarrow> string \<Rightarrow> string \<Rightarrow> ('w, int) io" where
  "main_snapshot sys restic_cmd restic_cli_args source_path ds snap_name =
     seq (run_cmd sys [''zfs'', ''snapshot'', ds @ ''@'' @ snap_name] True False None)
       (\<lambda>_. let snapshot_spec = ds @ ''@'' @ snap_name
             in seq (get_snapshot_creation_time sys snapshot_spec)
                  (\<lambda>restic_time.
                     if \<not> truthy restic_time then
                       seq (run_cmd sys [''zfs'', ''destroy'', snapshot_spec] False False None)
                         (\<lambda>_. ret 1)
                     else (\<lambda>w.
                       let snapshot_dir = snapshot_dir_of source_path snap_name
                       in if \<not> is_dir sys w snapshot_dir then
                            seq (run_cmd sys [''zfs'', ''destroy'', snapshot_spec] False False None)
                              (\<lambda>_. ret 1) w
                          else main_backup sys restic_cmd (fmt_opt restic_time) restic_cli_args
                                 snapshot_dir snapshot_spec w)))"

definition main :: "'w system \<Rightarrow> process \<Rightarrow> ('w, int) io" where
  "main sys proc =
     seq (main_preflight sys proc)
       (\<lambda>s. case s of
               Return n \<Rightarrow> ret n
             | Continue (restic_cmd, source_path, snap_name, restic_cli_args) \<Rightarrow>
                 seq (main_lock_check sys source_path)
                   (\<lambda>s. case s of
                           Return n \<Rightarrow> ret n
                         | Continue ds \<Rightarrow>
                             main_snapshot sys restic_cmd restic_cli_args source_path ds
                               snap_name))"

section \<open>Notions used to state the properties\<close>

text \<open>The field ranges of a Python \<^verbatim>\<open>datetime\<close> with a year of four digits, for
  which the width that \<^verbatim>\<open>%Y\<close> prints does not depend on the platform.\<close>

definition valid_datetime :: "datetime \<Rightarrow> bool" where
  "valid_datetime dt =
     (1000 \<le> year dt \<and> year dt \<le> 9999 \<and> 1 \<le> month dt \<and> month dt \<le> 12 \<and> 1 \<le> day dt \<and> day dt \<le> 31 \<and>
      hour dt \<le> 23 \<and> minute dt \<le> 59 \<and> second dt \<le> 59)"



definition restic_bin_options :: "string list \<Rightarrow> string list" where
  "restic_bin_options vs = concat (map (\<lambda>v. [''--restic-bin'', v]) vs)"

text \<open>The three components of what a computation returns.\<close>

definition result_of :: "(exn + 'a) \<times> call list \<times> 'w \<Rightarrow> exn + 'a" where
  "result_of x = fst x"

definition calls_of :: "(exn + 'a) \<times> call list \<times> 'w \<Rightarrow> call list" where
  "calls_of x = fst (snd x)"

definition world_of :: "(exn + 'a) \<times> call list \<times> 'w \<Rightarrow> 'w" where
  "world_of x = snd (snd x)"

text \<open>The kinds of call the backup script issues, told apart by the command.\<close>

definition is_backup_call :: "call \<Rightarrow> bool" where
  "is_backup_call c = (case argv c of x # s # rest \<Rightarrow> s = ''backup'' | _ \<Rightarrow> False)"

definition is_destroy_call :: "call \<Rightarrow> bool" where
  "is_destroy_call c = (take 2 (argv c) = [''zfs'', ''destroy''])"

definition snapshot_call :: "string \<Rightarrow> completed \<Rightarrow> call" where
  "snapshot_call spec r =
     \<lparr>argv = [''zfs'', ''snapshot'', spec], check = True, capture = False, cwd = None,
      outcome = Inr r\<rparr>"

definition creation_query :: "string \<Rightarrow> string list" where
  "creation_query spec = [''zfs'', ''get'', ''-H'', ''-p'', ''-o'', ''value'', ''creation'', spec]"

definition encryptionroot_query :: "string \<Rightarrow> string list" where
  "encryptionroot_query ds = [''zfs'', ''get'', ''-H'', ''-o'', ''value'', ''encryptionroot'', ds]"

definition keystatus_query :: "string \<Rightarrow> string list" where
  "keystatus_query ds = [''zfs'', ''get'', ''-H'', ''-o'', ''value'', ''keystatus'', ds]"

definition query_call :: "string list \<Rightarrow> completed \<Rightarrow> call" where
  "query_call cmd r = \<lparr>argv = cmd, check = False, capture = True, cwd = None, outcome = Inr r\<rparr>"

text \<open>The shape \<^verbatim>\<open>YYYY-MM-DD HH:MM:SS\<close>.\<close>

definition is_restic_time :: "string \<Rightarrow> bool" where
  "is_restic_time s =
     (length s = 19 \<and> list_all is_digit (take 4 s) \<and> s ! 4 = CHR ''-'' \<and>
      list_all is_digit (take 2 (drop 5 s)) \<and> s ! 7 = CHR ''-'' \<and>
      list_all is_digit (take 2 (drop 8 s)) \<and> s ! 10 = CHR '' '' \<and>
      list_all is_digit (take 2 (drop 11 s)) \<and> s ! 13 = CHR '':'' \<and>
      list_all is_digit (take 2 (drop 14 s)) \<and> s ! 16 = CHR '':'' \<and>
      list_all is_digit (drop 17 s))"







text \<open>A call as a value, and the result of a call whose exit status is not looked at:
  the exception when the program could not be started, else the given value.\<close>

definition issued :: "string list \<Rightarrow> bool \<Rightarrow> bool \<Rightarrow> string option \<Rightarrow> os_error + completed \<Rightarrow> call" where
  "issued cmd chk cap dir out = \<lparr>argv = cmd, check = chk, capture = cap, cwd = dir, outcome = out\<rparr>"

definition raised_or :: "os_error + completed \<Rightarrow> 'a \<Rightarrow> exn + 'a" where
  "raised_or out x = (case out of Inl e \<Rightarrow> Inl (OSError e) | Inr r \<Rightarrow> Inr x)"

text \<open>\<open>issues P m\<close>: every call that the computation \<open>m\<close> issues satisfies \<open>P\<close>.\<close>

definition issues :: "(call \<Rightarrow> bool) \<Rightarrow> ('w, 'a) io \<Rightarrow> bool" where
  "issues P m = (\<forall>w. \<forall>c\<in>set (calls_of (m w)). P c)"

definition list_query :: "string list" where
  "list_query = [''zfs'', ''list'', ''-H'', ''-o'', ''name,mountpoint'']"

text \<open>The exit status and the standard error of the check script.\<close>

definition exit_of :: "(exn + int) \<times> string list \<times> call list \<times> 'w \<Rightarrow> exn + int" where
  "exit_of x = fst x"

definition stderr_of :: "(exn + int) \<times> string list \<times> call list \<times> 'w \<Rightarrow> string list" where
  "stderr_of x = fst (snd x)"

text \<open>
  For the check script: a path argument passes when it is blank after trimming, which the
  script skips, or when \<^verbatim>\<open>check_path\<close> returns no message for it; the messages
  a path argument causes; and the assumption under which the checks of several paths do
  not influence each other, namely that a check returns and leaves the world as it was.
\<close>

definition path_ok :: "'w system \<Rightarrow> 'w \<Rightarrow> string \<Rightarrow> bool" where
  "path_ok sys w p = (strip p = [] \<or> result_of (check_path sys (strip p) w) = Inr None)"

definition path_messages :: "'w system \<Rightarrow> 'w \<Rightarrow> string \<Rightarrow> string list" where
  "path_messages sys w p =
     (if strip p = [] then []
      else (case result_of (check_path sys (strip p) w) of Inr (Some m) \<Rightarrow> [m] | _ \<Rightarrow> []))"

definition checks_quietly :: "'w system \<Rightarrow> 'w \<Rightarrow> string \<Rightarrow> bool" where
  "checks_quietly sys w p =
     (strip p = [] \<or>
      (world_of (check_path sys (strip p) w) = w \<and>
       (case result_of (check_path sys (strip p) w) of Inr v \<Rightarrow> True | Inl e \<Rightarrow> False)))"

section \<open>A simulated system\<close>

text \<open>
  A scripted stand-in for the collaborators, used to run the scripts on concrete inputs.
  The world is the list of snapshots that exist: \<^verbatim>\<open>zfs snapshot\<close> adds one when it
  succeeds, \<^verbatim>\<open>zfs destroy\<close> removes one, and every other command leaves the world
  as it is and answers from the scenario; the creation query can be made to fail to
  start.  The clock is UTC and knows two instants; as in
  CPython, a value that does not fit the 64-bit \<^verbatim>\<open>time_t\<close> raises
  \<^verbatim>\<open>OverflowError\<close>.
\<close>

record scenario =
  sc_listing :: string
  sc_encryptionroot :: string
  sc_keystatus :: string
  sc_creation :: string
  sc_creation_error :: "os_error option"
  sc_snapshot_exit :: int
  sc_restic_exit :: int
  sc_dirs :: "string list"

definition answer :: "int \<Rightarrow> string \<Rightarrow> completed" where
  "answer rc out = \<lparr>returncode = rc, stdout = out, stderr = []\<rparr>"

definition sim_spawn ::
  "scenario \<Rightarrow> string list \<Rightarrow> bool \<Rightarrow> string option \<Rightarrow> string list
     \<Rightarrow> (os_error + completed) \<times> string list" where
  "sim_spawn sc cmd cap dir snaps =
     (if cmd = [''zfs'', ''list'', ''-H'', ''-o'', ''name,mountpoint'']
        then (Inr (answer 0 (sc_listing sc)), snaps)
      else if take 6 cmd = [''zfs'', ''get'', ''-H'', ''-o'', ''value'', ''encryptionroot'']
        then (Inr (answer 0 (sc_encryptionroot sc)), snaps)
      else if take 6 cmd = [''zfs'', ''get'', ''-H'', ''-o'', ''value'', ''keystatus'']
        then (Inr (answer 0 (sc_keystatus sc)), snaps)
      else if take 7 cmd = [''zfs'', ''get'', ''-H'', ''-p'', ''-o'', ''value'', ''creation'']
        then (case sc_creation_error sc of
                None \<Rightarrow> (Inr (answer 0 (sc_creation sc)), snaps)
              | Some e \<Rightarrow> (Inl e, snaps))
      else if take 2 cmd = [''zfs'', ''snapshot'']
        then (Inr (answer (sc_snapshot_exit sc) []),
              if sc_snapshot_exit sc = 0 then snaps @ drop 2 cmd else snaps)
      else if take 2 cmd = [''zfs'', ''destroy'']
        then (Inr (answer 0 []), filter (\<lambda>s. s \<notin> set (drop 2 cmd)) snaps)
      else if take 1 (drop 1 cmd) = [''backup'']
        then (Inr (answer (sc_restic_exit sc) []), snaps)
      else (Inr (answer 0 ''ok''), snaps))"

definition sim_fromtimestamp :: "int \<Rightarrow> exn + datetime" where
  "sim_fromtimestamp epoch =
     (if epoch = 1704067200
      then Inr \<lparr>year = 2024, month = 1, day = 1, hour = 0, minute = 0, second = 0, microsecond = 0\<rparr>
      else if epoch = 1718454896
      then Inr \<lparr>year = 2024, month = 6, day = 15, hour = 12, minute = 34, second = 56,
                microsecond = 0\<rparr>
      else if epoch < - 9223372036854775808 \<or> 9223372036854775807 < epoch
      then Inl OverflowError
      else Inl ValueError)"

definition sim_system :: "scenario \<Rightarrow> string list system" where
  "sim_system sc =
     \<lparr>spawn = sim_spawn sc,
      is_file = (\<lambda>w p. True),
      is_dir = (\<lambda>w p. p \<in> set (sc_dirs sc)),
      access_x_ok = (\<lambda>w p. True),
      abspath = (\<lambda>p. p),
      resolve = (\<lambda>w p. p),
      fromtimestamp = sim_fromtimestamp\<rparr>"

text \<open>A run of the backup script for \<^verbatim>\<open>/mnt/data\<close>, and the snapshot it names.\<close>

definition sim_process :: process where
  "sim_process =
     \<lparr>sys_argv = [''zfs-restic-backup.py'', ''/mnt/data'', ''--'', ''--tag'', ''nightly''],
      getpid = 4711, nodename = ''nas'',
      snap_ts = \<lparr>year = 2024, month = 1, day = 2, hour = 3, minute = 4, second = 5,
                 microsecond = 0\<rparr>\<rparr>"

definition sim_snap_name :: string where
  "sim_snap_name = ''zfs-restic-4711-nas-20240102-030405''"

definition sim_scenario :: scenario where
  "sim_scenario =
     \<lparr>sc_listing = ''tank/data'' @ [TAB] @ ''/mnt/data'' @ [LF],
      sc_encryptionroot = ''tank/data'' @ [LF],
      sc_keystatus = ''available'' @ [LF],
      sc_creation = ''1704067200'' @ [LF],
      sc_creation_error = None,
      sc_snapshot_exit = 0,
      sc_restic_exit = 0,
      sc_dirs = [''/mnt/data'', ''/mnt/data/.zfs/snapshot/'' @ sim_snap_name]\<rparr>"

section \<open>Verified properties\<close>

subsection \<open>Decimal rendering\<close>

lemma str_nat_nonempty: "str_nat n \<noteq> []"
  by (subst str_nat.simps) simp


lemma is_digit_digit_char: "d < 10 \<Longrightarrow> is_digit (digit_char d)"
proof -
  assume "d < 10"
  then have "digit_char d \<in> set ''0123456789''"
    unfolding digit_char_def by (intro nth_mem) simp
  moreover have "\<forall>c\<in>set ''0123456789''. is_digit c"
    by (simp add: is_digit_def)
  ultimately show ?thesis by blast
qed

lemma str_nat_digits: "c \<in> set (str_nat n) \<Longrightarrow> is_digit c"
proof (induction n rule: str_nat.induct)
  case (1 n)
  show ?case
  proof (cases "n < 10")
    case True
    with "1.prems" show ?thesis
      by (subst (asm) str_nat.simps) (simp add: is_digit_digit_char)
  next
    case False
    with "1.prems" have "c \<in> set (str_nat (n div 10)) \<or> c = digit_char (n mod 10)"
      by (subst (asm) str_nat.simps) auto
    with False "1.IH" show ?thesis
      by (auto simp: is_digit_digit_char)
  qed
qed




lemma length_str_nat: "0 < k \<Longrightarrow> n < 10 ^ k \<Longrightarrow> length (str_nat n) \<le> k"
proof (induction n arbitrary: k rule: str_nat.induct)
  case (1 n)
  show ?case
  proof (cases "n < 10")
    case True
    with "1.prems" show ?thesis
      by (simp add: str_nat.simps [of n])
  next
    case False
    with "1.prems" obtain k' where k: "k = Suc k'" "0 < k'"
      by (cases k; cases "k - 1") auto
    with "1.prems" have "n div 10 < 10 ^ k'"
      by (simp add: less_mult_imp_div_less mult.commute)
    from "1.IH" [OF False k(2) this] k False show ?thesis
      by (simp add: str_nat.simps [of n])
  qed
qed

lemma zero_pad_shape:
  assumes "0 < k" "n < 10 ^ k"
  shows "length (zero_pad k n) = k \<and> (\<forall>c\<in>set (zero_pad k n). is_digit c)"
proof -
  from length_str_nat [OF assms] have "length (zero_pad k n) = k"
    by (simp add: zero_pad_def)
  moreover have "is_digit (CHR ''0'')"
    by (simp add: is_digit_def)
  then have "\<forall>c\<in>set (zero_pad k n). is_digit c"
    by (auto simp: zero_pad_def dest: str_nat_digits)
  ultimately show ?thesis by simp
qed

subsection \<open>Snapshot names\<close>





subsection \<open>The command line of the backup script\<close>

lemma parse_args_from_options:
  "parse_args_from rb (restic_bin_options vs @ args) =
     parse_args_from (if vs = [] then rb else Some (strip (last vs))) args"
  by (induction vs arbitrary: rb) (simp_all add: restic_bin_options_def)

lemma parse_args_from_separator:
  assumes "mp \<noteq> ''--restic-bin''" and "''--'' \<notin> set (mp # mid)"
  shows "parse_args_from rb (mp # mid @ ''--'' # rest) = (rb, strip mp, rest)"
proof -
  from assms(2) have "dropWhile (\<lambda>x. x \<noteq> ''--'') (mp # mid @ ''--'' # rest) = ''--'' # rest"
    by (auto simp: dropWhile_append3)
  with assms(1) show ?thesis by simp
qed

lemma main_preflight_cong:
  assumes "parse_args (tl (sys_argv p1)) = parse_args (tl (sys_argv p2))"
    and "getpid p1 = getpid p2" and "nodename p1 = nodename p2" and "snap_ts p1 = snap_ts p2"
  shows "main_preflight sys p1 = main_preflight sys p2"
  unfolding main_preflight_def assms ..

text \<open>
  Claim C10.  When the arguments contain \<^verbatim>\<open>--\<close>, the first argument after the
  \<^verbatim>\<open>--restic-bin\<close> options is the mount point, what follows the first \<^verbatim>\<open>--\<close>
  goes to restic, and the arguments \<open>mid\<close> between the two are dropped: the parse does
  not depend on them, and \<^verbatim>\<open>main\<close> behaves as if they had not been given.
\<close>

theorem separator_discards_between:
  assumes "mp \<noteq> ''--restic-bin''" and "''--'' \<notin> set (mp # mid)"
  shows "parse_args (restic_bin_options vs @ mp # mid @ ''--'' # rest) =
           (if vs = [] then None else Some (strip (last vs)), strip mp, rest) \<and>
         main sys (proc\<lparr>sys_argv := a0 # restic_bin_options vs @ mp # mid @ ''--'' # rest\<rparr>) =
           main sys (proc\<lparr>sys_argv := a0 # restic_bin_options vs @ mp # ''--'' # rest\<rparr>)"
proof -
  have p: "parse_args (restic_bin_options vs @ mp # m @ ''--'' # rest) =
           (if vs = [] then None else Some (strip (last vs)), strip mp, rest)"
    if "''--'' \<notin> set (mp # m)" for m
    using parse_args_from_separator [OF assms(1) that]
    by (simp add: parse_args_def parse_args_from_options)
  from assms(2) have "''--'' \<notin> set (mp # [])" by simp
  from p [OF this] p [OF assms(2)]
  have "main_preflight sys (proc\<lparr>sys_argv := a0 # restic_bin_options vs @ mp # mid @ ''--'' # rest\<rparr>) =
        main_preflight sys (proc\<lparr>sys_argv := a0 # restic_bin_options vs @ mp # ''--'' # rest\<rparr>)"
    by (intro main_preflight_cong) simp_all
  with p [OF assms(2)] show ?thesis
    by (simp add: main_def)
qed

theorem separator_discards_between_witness:
  "parse_args [''--restic-bin'', ''/usr/bin/restic'', ''/mnt/data'', ''/mnt/other'', ''-v'', ''--'', ''--tag'', ''x'']
     = (Some ''/usr/bin/restic'', ''/mnt/data'', [''--tag'', ''x''])"
  using separator_discards_between [where mp = "''/mnt/data''" and mid = "[''/mnt/other'', ''-v'']"
      and vs = "[''/usr/bin/restic'']" and rest = "[''--tag'', ''x'']", THEN conjunct1]
  by (simp add: restic_bin_options_def strip_def strip_chars_def is_space_def)

subsection \<open>Trimming and integer parsing\<close>

lemma strip_chars_id:
  assumes "s \<noteq> []" and "\<not> p (hd s)" and "\<not> p (last s)"
  shows "strip_chars p s = s"
proof -
  from assms have "dropWhile p s = s"
    by (simp add: dropWhile_eq_self_iff)
  moreover from assms have "dropWhile p (rev s) = rev s"
    by (simp add: dropWhile_eq_self_iff hd_rev)
  ultimately show ?thesis
    by (simp add: strip_chars_def)
qed

lemma strip_chars_snoc:
  assumes "p c"
  shows "strip_chars p (s @ [c]) = strip_chars p s"
proof (cases "\<forall>x\<in>set s. p x")
  case True
  then have d: "dropWhile p s = []" by simp
  from True assms have "dropWhile p (s @ [c]) = []" by simp
  then show ?thesis
    unfolding strip_chars_def d by simp
next
  case False
  then have "dropWhile p (s @ [c]) = dropWhile p s @ [c]"
    by (simp add: dropWhile_append)
  with assms show ?thesis
    by (simp add: strip_chars_def)
qed

lemma digit_not_space: "is_digit c \<Longrightarrow> \<not> is_space c"
  by (auto simp: is_digit_def is_space_def)

lemma digit_val_digit_char: "d < 10 \<Longrightarrow> digit_val (digit_char d) = d"
proof -
  assume "d < 10"
  then have "d \<in> set [0, 1, 2, 3, 4, 5, 6, 7, 8, 9]"
    by (simp add: numeral_eq_Suc less_Suc_eq)
  moreover have "\<forall>d\<in>set [0, 1, 2, 3, 4, 5, 6, 7, 8, 9]. digit_val (digit_char d) = d"
    by (simp add: digit_val_def digit_char_def)
  ultimately show ?thesis by blast
qed

lemma hd_str_nat_digit: "is_digit (hd (str_nat n))"
  using str_nat_digits [of "hd (str_nat n)" n] str_nat_nonempty [of n] by simp

lemma last_str_nat_digit: "is_digit (last (str_nat n))"
  using str_nat_digits [of "last (str_nat n)" n] str_nat_nonempty [of n] by simp

lemma int_digits_snoc:
  "\<forall>c\<in>set xs. is_digit c \<Longrightarrow> is_digit d \<Longrightarrow>
   int_digits acc (xs @ [d]) = map_option (\<lambda>a. 10 * a + digit_val d) (int_digits acc xs)"
  by (induction xs arbitrary: acc) simp_all

lemma int_digits_str_nat: "int_digits 0 (str_nat n) = Some n"
proof (induction n rule: str_nat.induct)
  case (1 n)
  show ?case
  proof (cases "n < 10")
    case True
    then show ?thesis
      by (simp add: str_nat.simps [of n] is_digit_digit_char digit_val_digit_char)
  next
    case False
    have "\<forall>c\<in>set (str_nat (n div 10)). is_digit c"
      by (simp add: str_nat_digits)
    from int_digits_snoc [OF this, of "digit_char (n mod 10)" 0] "1.IH" [OF False] False
    show ?thesis
      by (simp add: str_nat.simps [of n] is_digit_digit_char digit_val_digit_char)
  qed
qed

lemma int_unsigned_str_nat: "int_unsigned (str_nat n) = Some (int n)"
proof (cases "str_nat n")
  case Nil
  with str_nat_nonempty [of n] show ?thesis by simp
next
  case (Cons c cs)
  with str_nat_digits [of c n] have c: "is_digit c" by simp
  from int_digits_str_nat [of n] Cons c have "int_digits (digit_val c) cs = Some n"
    by simp
  with Cons c show ?thesis
    by (simp add: int_unsigned_def)
qed

lemma strip_str_nat: "strip (str_nat n) = str_nat n"
proof -
  have "is_digit (hd (str_nat n))" "is_digit (last (str_nat n))"
    by (rule hd_str_nat_digit, rule last_str_nat_digit)
  then show ?thesis
    unfolding strip_def using str_nat_nonempty [of n]
    by (intro strip_chars_id) (simp_all add: digit_not_space)
qed

lemma strip_str_int: "strip (str_int i) = str_int i"
proof (cases "i < 0")
  case True
  have "is_digit (last (str_nat (nat (- i))))"
    by (rule last_str_nat_digit)
  then have "\<not> is_space (last (CHR ''-'' # str_nat (nat (- i))))"
    using str_nat_nonempty [of "nat (- i)"] by (simp add: digit_not_space)
  moreover have "\<not> is_space (CHR ''-'')"
    by (simp add: is_space_def)
  ultimately have "strip_chars is_space (CHR ''-'' # str_nat (nat (- i))) = CHR ''-'' # str_nat (nat (- i))"
    by (intro strip_chars_id) simp_all
  with True show ?thesis
    by (simp add: str_int_def strip_def)
next
  case False
  then show ?thesis
    by (simp add: str_int_def strip_str_nat)
qed

lemma py_int_str_int: "py_int (str_int i) = Some i"
proof (cases "i < 0")
  case True
  with strip_str_int [of i] have "strip (str_int i) = CHR ''-'' # str_nat (nat (- i))"
    by (simp add: str_int_def)
  with True show ?thesis
    by (simp add: py_int_def int_unsigned_str_nat)
next
  case False
  obtain c cs where cs: "str_nat (nat i) = c # cs"
    using str_nat_nonempty [of "nat i"] by (cases "str_nat (nat i)") auto
  with str_nat_digits [of c "nat i"] have "is_digit c" by simp
  then have "c \<noteq> CHR ''-''" "c \<noteq> CHR ''+''"
    by (auto simp: is_digit_def)
  moreover from False strip_str_int [of i] cs have "strip (str_int i) = c # cs"
    by (simp add: str_int_def)
  ultimately show ?thesis
    using False int_unsigned_str_nat [of "nat i"] cs
    by (simp add: py_int_def)
qed

lemma strip_line: "strip (s @ [LF]) = strip s"
  unfolding strip_def by (rule strip_chars_snoc) (simp add: is_space_def)

lemma py_int_line: "py_int (strip (str_int i @ [LF])) = Some i"
  by (simp add: strip_line strip_str_int py_int_str_int)

lemma strftime_restic_shape:
  assumes "valid_datetime dt"
  shows "is_restic_time (strftime_restic dt)"
proof -
  from assms have y: "year dt < 10 ^ 4" and m: "month dt < 10 ^ 2" and d: "day dt < 10 ^ 2"
    and h: "hour dt < 10 ^ 2" and mi: "minute dt < 10 ^ 2" and s: "second dt < 10 ^ 2"
    by (simp_all add: valid_datetime_def)
  note zs = zero_pad_shape [OF _ y] zero_pad_shape [OF _ m] zero_pad_shape [OF _ d]
    zero_pad_shape [OF _ h] zero_pad_shape [OF _ mi] zero_pad_shape [OF _ s]
  show ?thesis
    using zs by (auto simp: strftime_restic_def is_restic_time_def list_all_iff nth_append)
qed

lemma run_cmd_completed:
  assumes "spawn sys cmd cap dir w = (Inr r, w')"
  shows "run_cmd sys cmd chk cap dir w =
           (if chk \<and> returncode r \<noteq> 0 then Inl (CalledProcessError (returncode r)) else Inr r,
            [\<lparr>argv = cmd, check = chk, capture = cap, cwd = dir, outcome = Inr r\<rparr>], w')"
  using assms by (simp add: run_cmd_def subprocess_run_def)

subsection \<open>Calls issued by the parts of the backup script\<close>

lemma seq_returned:
  assumes "m w = (Inr x, cs1, w1)" and "f x w1 = (res, cs2, w2)"
  shows "seq m f w = (res, cs1 @ cs2, w2)"
  using assms by (simp add: seq_def)

lemma subprocess_run_call:
  assumes "subprocess_run sys cmd chk cap dir w = (res, cs, w')"
  shows "\<exists>out. cs = [\<lparr>argv = cmd, check = chk, capture = cap, cwd = dir, outcome = out\<rparr>] \<and>
           spawn sys cmd cap dir w = (out, w') \<and>
           res = (case out of Inl e \<Rightarrow> Inl (OSError e)
                  | Inr r \<Rightarrow> if chk \<and> returncode r \<noteq> 0
                            then Inl (CalledProcessError (returncode r)) else Inr r)"
  using assms by (auto simp: subprocess_run_def split: prod.splits sum.splits)

lemma version_checks_step:
  assumes "subprocess_run sys cmd False True None w = (r1, cs1, w1)"
  shows "version_checks sys ((name, cmd) # rest) w =
           (case r1 of
              Inl e \<Rightarrow> (if e = OSError FileNotFoundError then Inr False else Inl e, cs1, w1)
            | Inr result \<Rightarrow>
                if returncode result \<noteq> 0 then (Inr False, cs1, w1)
                else (case version_checks sys rest w1 of (r, cs', w'') \<Rightarrow> (r, cs1 @ cs', w'')))"
  using assms by (simp split: sum.split exn.split os_error.split)


lemma version_checks_calls:
  "version_checks sys cmds w = (res, cs, w') \<Longrightarrow> c \<in> set cs \<Longrightarrow> argv c \<in> snd ` set cmds"
proof (induction cmds arbitrary: w res cs w')
  case Nil
  then show ?case by simp
next
  case (Cons a cmds)
  obtain name cmd where a: "a = (name, cmd)" by (cases a)
  obtain r1 cs1 w1 where run: "subprocess_run sys cmd False True None w = (r1, cs1, w1)"
    by (cases "subprocess_run sys cmd False True None w")
  from subprocess_run_call [OF run] have cs1: "\<forall>c\<in>set cs1. argv c = cmd"
    by auto
  obtain r2 cs2 w2 where rest: "version_checks sys cmds w1 = (r2, cs2, w2)"
    by (cases "version_checks sys cmds w1")
  from Cons.prems(1) have "set cs \<subseteq> set cs1 \<union> set cs2"
    unfolding a version_checks_step [OF run] rest
    by (auto split: sum.splits if_splits)
  with Cons.prems(2) have "c \<in> set cs1 \<or> c \<in> set cs2" by auto
  then show ?case
  proof
    assume "c \<in> set cs1"
    with cs1 a show ?thesis by simp
  next
    assume "c \<in> set cs2"
    from Cons.IH [OF rest this] show ?thesis by auto
  qed
qed


lemma preflight_calls:
  assumes "main_preflight sys proc w = (res, cs, w')" and "c \<in> set cs"
  shows "\<exists>x. argv c = [x, ''version'']"
proof -
  obtain restic_bin mount_point args where p: "parse_args (tl (sys_argv proc)) = (restic_bin, mount_point, args)"
    by (cases "parse_args (tl (sys_argv proc))")
  show ?thesis
  proof (cases "restic_command sys w restic_bin")
    case None
    with assms p show ?thesis
      by (simp add: main_preflight_def split: if_splits)
  next
    case (Some restic_cmd)
    obtain r cs1 w1 where v: "version_checks sys
        [(''zfs'', [''zfs'', ''version'']), (''restic'', [restic_cmd, ''version''])] w = (r, cs1, w1)"
      by (cases "version_checks sys
        [(''zfs'', [''zfs'', ''version'']), (''restic'', [restic_cmd, ''version''])] w")
    from assms(1) p Some v have "cs = [] \<or> cs = cs1"
      unfolding main_preflight_def Let_def
      by (simp del: version_checks.simps split: if_splits sum.splits)
    with assms(2) have "c \<in> set cs1" by auto
    from version_checks_calls [OF v this] show ?thesis by auto
  qed
qed

lemma preflight_continue:
  assumes "main_preflight sys proc w = (Inr (Continue (restic_cmd, source_path, snap_name, args)), cs, w')"
  shows "restic_command sys w (fst (parse_args (tl (sys_argv proc)))) = Some restic_cmd \<and>
         source_path = abspath sys (fst (snd (parse_args (tl (sys_argv proc))))) \<and>
         snap_name = snap_name_of (getpid proc) (nodename proc) (snap_ts proc) \<and>
         args = snd (snd (parse_args (tl (sys_argv proc)))) \<and>
         is_dir sys w' source_path"
proof -
  obtain restic_bin mount_point args' where p: "parse_args (tl (sys_argv proc)) = (restic_bin, mount_point, args')"
    by (cases "parse_args (tl (sys_argv proc))")
  show ?thesis
  proof (cases "restic_command sys w restic_bin")
    case None
    with assms p show ?thesis
      by (simp add: main_preflight_def split: if_splits)
  next
    case (Some rc)
    obtain r cs1 w1 where v: "version_checks sys
        [(''zfs'', [''zfs'', ''version'']), (''restic'', [rc, ''version''])] w = (r, cs1, w1)"
      by (cases "version_checks sys
        [(''zfs'', [''zfs'', ''version'']), (''restic'', [rc, ''version''])] w")
    from assms(1) p Some v show ?thesis
      unfolding main_preflight_def Let_def
      by (simp del: version_checks.simps split: if_splits sum.splits)
  qed
qed

lemma issues_ret: "issues P (ret x)"
  by (simp add: issues_def ret_def calls_of_def)

lemma issues_seq: "issues P m \<Longrightarrow> (\<And>x. issues P (f x)) \<Longrightarrow> issues P (seq m f)"
  unfolding issues_def calls_of_def seq_def
  by (auto split: prod.splits sum.splits) (metis fst_conv snd_conv)+

lemma issues_run_cmd:
  "(\<And>out. P \<lparr>argv = cmd, check = chk, capture = cap, cwd = dir, outcome = out\<rparr>) \<Longrightarrow>
   issues P (run_cmd sys cmd chk cap dir)"
  by (auto simp: issues_def calls_of_def run_cmd_def subprocess_run_def split: prod.splits sum.splits)

lemma issues_if: "issues P m1 \<Longrightarrow> issues P m2 \<Longrightarrow> issues P (if b then m1 else m2)"
  by simp

lemma issuesD:
  assumes "issues P m" and "m w = (res, cs, w')" and "c \<in> set cs"
  shows "P c"
proof -
  from assms(1) have "\<forall>c\<in>set (calls_of (m w)). P c"
    by (simp add: issues_def)
  with assms(2,3) show ?thesis
    by (simp add: calls_of_def)
qed

lemma lock_check_issues:
  "issues (\<lambda>c. \<not> is_backup_call c \<and> \<not> is_destroy_call c) (main_lock_check sys source_path)"
  unfolding main_lock_check_def get_dataset_for_path_def get_encryption_root_def get_keystatus_def
  by (intro issues_seq issues_ret issues_run_cmd issues_if)
     (simp_all add: is_backup_call_def is_destroy_call_def)


lemmas run_defs = seq_def ret_def run_cmd_def subprocess_run_def

lemma main_backup_cases:
  assumes "main_backup sys restic_cmd t args dir spec w = (res, cs, w')"
  obtains (stopped) out where
      "cs = [issued ([restic_cmd, ''backup'', ''--time'', t, ''.''] @ args) False False (Some dir) out]"
      and "res = raised_or out (case out of Inr r \<Rightarrow> returncode r)"
      and "\<forall>r. out = Inr r \<longrightarrow> returncode r \<noteq> 0"
      and "spawn sys ([restic_cmd, ''backup'', ''--time'', t, ''.''] @ args) False (Some dir) w = (out, w')"
  | (destroyed) r w1 out' where
      "cs = [issued ([restic_cmd, ''backup'', ''--time'', t, ''.''] @ args) False False (Some dir) (Inr r),
             issued [''zfs'', ''destroy'', spec] False False None out']"
      and "returncode r = 0" and "res = raised_or out' 0"
      and "spawn sys ([restic_cmd, ''backup'', ''--time'', t, ''.''] @ args) False (Some dir) w = (Inr r, w1)"
      and "spawn sys [''zfs'', ''destroy'', spec] False None w1 = (out', w')"
proof -
  obtain out w1 where s: "spawn sys ([restic_cmd, ''backup'', ''--time'', t, ''.''] @ args) False (Some dir) w = (out, w1)"
    by (cases "spawn sys ([restic_cmd, ''backup'', ''--time'', t, ''.''] @ args) False (Some dir) w")
  show ?thesis
  proof (cases "\<exists>r. out = Inr r \<and> returncode r = 0")
    case False
    with assms s have "cs = [issued ([restic_cmd, ''backup'', ''--time'', t, ''.''] @ args) False False (Some dir) out]"
      and "res = raised_or out (case out of Inr r \<Rightarrow> returncode r)" and "w' = w1"
      by (cases out; simp add: main_backup_def run_defs issued_def raised_or_def)+
    with False s show ?thesis
      by (intro stopped [of out]) auto
  next
    case True
    then obtain r where r: "out = Inr r" "returncode r = 0" by blast
    obtain out' w2 where d: "spawn sys [''zfs'', ''destroy'', spec] False None w1 = (out', w2)"
      by (cases "spawn sys [''zfs'', ''destroy'', spec] False None w1")
    from assms s r d have "cs = [issued ([restic_cmd, ''backup'', ''--time'', t, ''.''] @ args) False False (Some dir) (Inr r),
             issued [''zfs'', ''destroy'', spec] False False None out']"
      and "res = raised_or out' 0" and "w' = w2"
      by (cases out'; simp add: main_backup_def run_defs issued_def raised_or_def)+
    with r s d show ?thesis
      by (intro destroyed [of r out' w1]) auto
  qed
qed


lemma main_snapshot_cases:
  fixes sys :: "'w system"
  assumes "main_snapshot sys restic_cmd args source_path ds snap_name w = (res, cs, w')"
  defines "spec \<equiv> ds @ ''@'' @ snap_name"
    and "dir \<equiv> snapshot_dir_of source_path snap_name"
  obtains (create_failed) out0 where
      "cs = [issued [''zfs'', ''snapshot'', spec] True False None out0]"
      and "\<forall>n. res \<noteq> Inr n" and "\<forall>r. out0 = Inr r \<longrightarrow> returncode r \<noteq> 0"
  | (time_raised) r0 out1 where
      "cs = [issued [''zfs'', ''snapshot'', spec] True False None (Inr r0),
             issued (creation_query spec) False True None out1]"
      and "returncode r0 = 0" and "\<forall>n. res \<noteq> Inr n"
  | (cleaned) r0 r1 t w1 w2 out2 where
      "cs = [issued [''zfs'', ''snapshot'', spec] True False None (Inr r0),
             issued (creation_query spec) False True None (Inr r1),
             issued [''zfs'', ''destroy'', spec] False False None out2]"
      and "returncode r0 = 0" and "res = raised_or out2 1"
      and "spawn sys [''zfs'', ''snapshot'', spec] False None w = (Inr r0, w1)"
      and "spawn sys (creation_query spec) True None w1 = (Inr r1, w2)"
      and "creation_time_of sys r1 = Inr t" and "\<not> truthy t \<or> \<not> is_dir sys w2 dir"
      and "spawn sys [''zfs'', ''destroy'', spec] False None w2 = (out2, w')"
  | (backed_up) r0 r1 t w1 w2 cs2 where
      "cs = [issued [''zfs'', ''snapshot'', spec] True False None (Inr r0),
             issued (creation_query spec) False True None (Inr r1)] @ cs2"
      and "returncode r0 = 0"
      and "spawn sys [''zfs'', ''snapshot'', spec] False None w = (Inr r0, w1)"
      and "spawn sys (creation_query spec) True None w1 = (Inr r1, w2)"
      and "creation_time_of sys r1 = Inr (Some t)" and "t \<noteq> []" and "is_dir sys w2 dir"
      and "main_backup sys restic_cmd t args dir spec w2 = (res, cs2, w')"
proof -
  note defs = main_snapshot_def get_snapshot_creation_time_def run_defs issued_def raised_or_def
    creation_query_def spec_def dir_def Let_def
  obtain out0 w1 where s0: "spawn sys [''zfs'', ''snapshot'', spec] False None w = (out0, w1)"
    by (cases "spawn sys [''zfs'', ''snapshot'', spec] False None w")
  show ?thesis
  proof (cases "\<exists>r. out0 = Inr r \<and> returncode r = 0")
    case False
    with assms(1) s0 have "cs = [issued [''zfs'', ''snapshot'', spec] True False None out0]"
      and "\<forall>n. res \<noteq> Inr n"
      by (cases out0; auto simp: defs)+
    with False show ?thesis
      by (intro create_failed [of out0]) auto
  next
    case True
    then obtain r0 where r0: "out0 = Inr r0" "returncode r0 = 0" by blast
    obtain out1 w2 where s1: "spawn sys (creation_query spec) True None w1 = (out1, w2)"
      by (cases "spawn sys (creation_query spec) True None w1")
    show ?thesis
    proof (cases "\<exists>r1 t. out1 = Inr r1 \<and> creation_time_of sys r1 = Inr t")
      case False
      with assms(1) s0 r0 s1 have
        "cs = [issued [''zfs'', ''snapshot'', spec] True False None (Inr r0),
               issued (creation_query spec) False True None out1]"
        and "\<forall>n. res \<noteq> Inr n"
        by (cases out1; cases "creation_time_of sys (projr out1)"; auto simp: defs)+
      with r0 show ?thesis
        by (intro time_raised [of r0 out1]) auto
    next
      case True
      then obtain r1 t where r1: "out1 = Inr r1" "creation_time_of sys r1 = Inr t" by blast
      show ?thesis
      proof (cases "\<not> truthy t \<or> \<not> is_dir sys w2 dir")
        case True
        obtain out2 w3 where s2: "spawn sys [''zfs'', ''destroy'', spec] False None w2 = (out2, w3)"
          by (cases "spawn sys [''zfs'', ''destroy'', spec] False None w2")
        have "cs = [issued [''zfs'', ''snapshot'', spec] True False None (Inr r0),
                 issued (creation_query spec) False True None (Inr r1),
                 issued [''zfs'', ''destroy'', spec] False False None out2] \<and>
          res = raised_or out2 1 \<and> w' = w3"
        proof (cases "truthy t")
          case False
          with assms(1) s0 r0 s1 r1 s2 show ?thesis
            by (cases out2; simp add: defs)
        next
          case t: True
          with True have "\<not> is_dir sys w2 (snapshot_dir_of source_path snap_name)"
            by (simp add: dir_def)
          with t assms(1) s0 r0 s1 r1 s2 show ?thesis
            by (cases out2; simp add: defs)
        qed
        then have
          "cs = [issued [''zfs'', ''snapshot'', spec] True False None (Inr r0),
                 issued (creation_query spec) False True None (Inr r1),
                 issued [''zfs'', ''destroy'', spec] False False None out2]"
          and "res = raised_or out2 1" and "w' = w3"
          by simp_all
        with r0 r1 s0 s1 s2 True show ?thesis
          by (intro cleaned [of r0 r1 out2 w1 w2 t]) auto
      next
        case False
        then obtain t' where t: "t = Some t'" "t' \<noteq> []" and d: "is_dir sys w2 dir"
          by (cases t) (auto simp: truthy_def)
        obtain res2 cs2 w3 where b: "main_backup sys restic_cmd t' args dir spec w2 = (res2, cs2, w3)"
          by (cases "main_backup sys restic_cmd t' args dir spec w2")
        from assms(1) s0 r0 s1 r1 t d b have
          "cs = [issued [''zfs'', ''snapshot'', spec] True False None (Inr r0),
                 issued (creation_query spec) False True None (Inr r1)] @ cs2"
          and "res = res2" and "w' = w3"
          by (auto simp: defs truthy_def fmt_opt_def)
        with r0 r1 s0 s1 t d b show ?thesis
          by (intro backed_up [of r0 r1 cs2 w1 w2 t']) auto
      qed
    qed
  qed
qed

lemma not_backup_issued:
  "\<not> is_backup_call (issued [''zfs'', ''snapshot'', spec] chk cap dir out)"
  "\<not> is_backup_call (issued (creation_query spec) chk cap dir out)"
  "\<not> is_backup_call (issued [''zfs'', ''destroy'', spec] chk cap dir out)"
  by (simp_all add: is_backup_call_def issued_def creation_query_def)

lemma not_destroy_issued:
  "\<not> is_destroy_call (issued [''zfs'', ''snapshot'', spec] chk cap dir out)"
  "\<not> is_destroy_call (issued (creation_query spec) chk cap dir out)"
  "\<not> is_destroy_call (issued (x # ''backup'' # rest) chk cap dir out)"
  by (simp_all add: is_destroy_call_def issued_def creation_query_def)

lemma version_call_kind:
  assumes "argv c = [x, ''version'']"
  shows "\<not> is_backup_call c \<and> \<not> is_destroy_call c"
  using assms by (simp add: is_backup_call_def is_destroy_call_def)

lemma main_backup_call_cases:
  fixes sys :: "'w system"
  assumes "main sys proc w = (res, cs, w')" and "c \<in> set cs" and "is_backup_call c"
  obtains restic_cmd source_path args ds cs0 r0 r1 t w2 cs3 where
    "restic_command sys w (fst (parse_args (tl (sys_argv proc)))) = Some restic_cmd"
    and "source_path = abspath sys (fst (snd (parse_args (tl (sys_argv proc)))))"
    and "args = snd (snd (parse_args (tl (sys_argv proc))))"
    and "cs = cs0 @
           [issued [''zfs'', ''snapshot'',
                    ds @ ''@'' @ snap_name_of (getpid proc) (nodename proc) (snap_ts proc)]
              True False None (Inr r0),
            issued (creation_query
                     (ds @ ''@'' @ snap_name_of (getpid proc) (nodename proc) (snap_ts proc)))
              False True None (Inr r1)] @ cs3"
    and "\<forall>d\<in>set cs0. \<not> is_backup_call d \<and> \<not> is_destroy_call d"
    and "returncode r0 = 0" and "creation_time_of sys r1 = Inr (Some t)" and "t \<noteq> []"
    and "main_backup sys restic_cmd t args
           (snapshot_dir_of source_path (snap_name_of (getpid proc) (nodename proc) (snap_ts proc)))
           (ds @ ''@'' @ snap_name_of (getpid proc) (nodename proc) (snap_ts proc)) w2 = (res, cs3, w')"
    and "c \<in> set cs3"
proof -
  let ?sn = "snap_name_of (getpid proc) (nodename proc) (snap_ts proc)"
  obtain s1 cs1 w1 where pre: "main_preflight sys proc w = (s1, cs1, w1)"
    by (cases "main_preflight sys proc w")
  have cs1: "\<forall>d\<in>set cs1. \<not> is_backup_call d \<and> \<not> is_destroy_call d"
    using preflight_calls [OF pre] version_call_kind by blast
  show ?thesis
  proof (cases s1)
    case (Inl e)
    with assms(1) pre have "cs = cs1"
      by (simp add: main_def seq_def)
    with assms(2,3) cs1 show ?thesis by blast
  next
    case (Inr st)
    show ?thesis
    proof (cases st)
      case (Return n)
      with assms(1) pre Inr have "cs = cs1"
        by (simp add: main_def seq_def ret_def)
      with assms(2,3) cs1 show ?thesis by blast
    next
      case (Continue tup)
      obtain restic_cmd source_path snap_name args where
        tup: "tup = (restic_cmd, source_path, snap_name, args)"
        by (cases tup)
      note cont = preflight_continue [OF pre [unfolded Inr Continue tup]]
      then have sn: "snap_name = ?sn" by simp
      obtain s2 cs2 w2 where lock: "main_lock_check sys source_path w1 = (s2, cs2, w2)"
        by (cases "main_lock_check sys source_path w1")
      have cs2: "\<forall>d\<in>set cs2. \<not> is_backup_call d \<and> \<not> is_destroy_call d"
        using issuesD [OF lock_check_issues lock] by blast
      show ?thesis
      proof (cases "\<exists>ds. s2 = Inr (Continue ds)")
        case False
        with assms(1) pre Inr Continue tup lock have "cs = cs1 @ cs2"
          by (cases s2; cases "projr s2"; simp add: main_def seq_def ret_def)
        with assms(2,3) cs1 cs2 show ?thesis by auto
      next
        case True
        then obtain ds where ds: "s2 = Inr (Continue ds)" by blast
        obtain cs3 where snap: "main_snapshot sys restic_cmd args source_path ds ?sn w2 = (res, cs3, w')"
          and cs: "cs = cs1 @ cs2 @ cs3"
          using assms(1) pre Inr Continue tup lock ds sn
          by (cases "main_snapshot sys restic_cmd args source_path ds ?sn w2")
             (simp add: main_def seq_def ret_def)
        from cs assms(2,3) cs1 cs2 have c3: "c \<in> set cs3" by auto
        from snap show ?thesis
        proof (cases rule: main_snapshot_cases)
          case (create_failed out0)
          with c3 assms(3) show ?thesis by (simp add: not_backup_issued)
        next
          case (time_raised r0 out1)
          with c3 assms(3) show ?thesis by (auto simp: not_backup_issued)
        next
          case (cleaned r0 r1 t w1 w2 out2)
          with c3 assms(3) show ?thesis by (auto simp: not_backup_issued)
        next
          case (backed_up r0 r1 t w1' w2' cs4)
          from backed_up(1) c3 assms(3) have "c \<in> set cs4"
            by (auto simp: not_backup_issued)
          with backed_up cs cs1 cs2 cont show ?thesis
            by (intro that [of restic_cmd source_path args "cs1 @ cs2" ds r0 r1 cs4 t w2']) auto
        qed
      qed
    qed
  qed
qed

subsection \<open>Creation time\<close>

lemma of_char_digit_char: "d < 10 \<Longrightarrow> (of_char (digit_char d) :: nat) = 48 + d"
proof -
  assume "d < 10"
  then have "d \<in> set [0, 1, 2, 3, 4, 5, 6, 7, 8, 9]"
    by (simp add: numeral_eq_Suc less_Suc_eq)
  moreover have "\<forall>d\<in>set [0, 1, 2, 3, 4, 5, 6, 7, 8, 9]. (of_char (digit_char d) :: nat) = 48 + d"
    by (simp add: digit_char_def)
  ultimately show ?thesis by blast
qed

lemma str_nat_one: "n < 10 \<Longrightarrow> str_nat n = [digit_char n]"
  by (simp add: str_nat.simps [of n])

lemma str_nat_two: "10 \<le> n \<Longrightarrow> n < 100 \<Longrightarrow> str_nat n = [digit_char (n div 10), digit_char (n mod 10)]"
  by (simp add: str_nat.simps [of n] str_nat_one)

lemma zero_pad_two:
  assumes "n < 100"
  shows "zero_pad 2 n = [digit_char (n div 10), digit_char (n mod 10)]"
proof (cases "n < 10")
  case True
  then show ?thesis
    by (simp add: zero_pad_def str_nat_one digit_char_def)
next
  case False
  with assms show ?thesis
    by (simp add: zero_pad_def str_nat_two)
qed

lemma zero_pad_four:
  assumes "1000 \<le> n" and "n < 10000"
  shows "zero_pad 4 n =
           [digit_char (n div 1000), digit_char (n div 100 mod 10), digit_char (n div 10 mod 10),
            digit_char (n mod 10)]"
proof -
  from assms have a: "\<not> n < 10" "\<not> n div 10 < 10" "\<not> n div 10 div 10 < 10" "n div 10 div 10 div 10 < 10"
    by simp_all
  have b: "n div 10 div 10 = n div 100" "n div 10 div 10 div 10 = n div 1000"
    "n div 100 div 10 = n div 1000"
    by (simp_all add: div_mult2_eq [symmetric])
  from a have "str_nat n =
      [digit_char (n div 10 div 10 div 10), digit_char (n div 10 div 10 mod 10),
       digit_char (n div 10 mod 10), digit_char (n mod 10)]"
    by (simp add: str_nat.simps [of n] str_nat.simps [of "n div 10"]
        str_nat.simps [of "n div 10 div 10"] str_nat_one)
  then show ?thesis
    by (simp add: zero_pad_def b)
qed

lemma strftime_restic_text:
  assumes "valid_datetime dt"
  shows "map of_char (strftime_restic dt) =
           [48 + year dt div 1000, 48 + year dt div 100 mod 10, 48 + year dt div 10 mod 10,
            48 + year dt mod 10, 45,
            48 + month dt div 10, 48 + month dt mod 10, 45,
            48 + day dt div 10, 48 + day dt mod 10, 32,
            48 + hour dt div 10, 48 + hour dt mod 10, 58,
            48 + minute dt div 10, 48 + minute dt mod 10, 58,
            48 + second dt div 10, 48 + second dt mod 10 :: nat]"
proof -
  from assms have y: "1000 \<le> year dt" "year dt < 10000" and m: "month dt < 100"
    and d: "day dt < 100" and h: "hour dt < 100" and mi: "minute dt < 100" and s: "second dt < 100"
    by (simp_all add: valid_datetime_def)
  have lt: "n div 10 < 10" if "n < 100" for n :: nat
    using that by simp
  from y have y3: "year dt div 1000 < 10" by simp
  show ?thesis
    by (simp add: strftime_restic_def zero_pad_four [OF y] zero_pad_two [OF m] zero_pad_two [OF d]
        zero_pad_two [OF h] zero_pad_two [OF mi] zero_pad_two [OF s] of_char_digit_char
        y3 lt [OF m] lt [OF d] lt [OF h] lt [OF mi] lt [OF s])
qed

text \<open>
  Claim C6.  The creation time is read with one \<^verbatim>\<open>zfs get creation\<close>.  A nonzero
  exit, empty output or a value that \<^verbatim>\<open>int()\<close> rejects give \<open>None\<close>.  An integer
  above \<open>10 ^ 12\<close> is divided by \<open>10 ^ 9\<close>, rounding down; the time that
  \<^verbatim>\<open>datetime.fromtimestamp\<close> returns for it is printed as
  \<^verbatim>\<open>YYYY-MM-DD HH:MM:SS\<close>: character by character, the four decimal digits of the
  year, a dash, the two digits of the month, a dash, the two digits of the day, a space, and
  the two digits each of hour, minute and second with colons between, given here by the
  codes of the characters (48 is the digit 0, 45 the dash, 32 the space, 58 the colon).
  The decimal text of any integer, as \<^verbatim>\<open>zfs\<close> prints it with a line feed, is read
  back as that integer.
\<close>

theorem creation_time_resolution:
  assumes "spawn sys (creation_query spec) True None w = (Inr r, w')"
  shows "calls_of (get_snapshot_creation_time sys spec w) = [query_call (creation_query spec) r] \<and>
         (returncode r \<noteq> 0 \<or> strip (stdout r) = [] \<or> py_int (strip (stdout r)) = None \<longrightarrow>
            result_of (get_snapshot_creation_time sys spec w) = Inr None) \<and>
         (\<forall>epoch dt.
            returncode r = 0 \<and> py_int (strip (stdout r)) = Some epoch \<and>
            fromtimestamp sys (if epoch > 10 ^ 12 then epoch div 10 ^ 9 else epoch) = Inr dt \<longrightarrow>
            result_of (get_snapshot_creation_time sys spec w) = Inr (Some (strftime_restic dt)) \<and>
            (valid_datetime dt \<longrightarrow>
               is_restic_time (strftime_restic dt) \<and>
               map of_char (strftime_restic dt) =
                 [48 + year dt div 1000, 48 + year dt div 100 mod 10, 48 + year dt div 10 mod 10,
                  48 + year dt mod 10, 45,
                  48 + month dt div 10, 48 + month dt mod 10, 45,
                  48 + day dt div 10, 48 + day dt mod 10, 32,
                  48 + hour dt div 10, 48 + hour dt mod 10, 58,
                  48 + minute dt div 10, 48 + minute dt mod 10, 58,
                  48 + second dt div 10, 48 + second dt mod 10 :: nat])) \<and>
         (\<forall>epoch. py_int (strip (str_int epoch @ [LF])) = Some epoch)"
proof -
  have run: "get_snapshot_creation_time sys spec w =
               (creation_time_of sys r, [query_call (creation_query spec) r], w')"
    using run_cmd_completed [OF assms, of False]
    by (simp add: get_snapshot_creation_time_def seq_def creation_query_def query_call_def)
  have "strip (stdout r) \<noteq> []" if "py_int (strip (stdout r)) = Some epoch" for epoch
  proof
    assume "strip (stdout r) = []"
    then have "py_int (strip (stdout r)) = py_int []"
      by (simp only:)
    also have "\<dots> = None"
      by (simp add: py_int_def strip_def strip_chars_def)
    finally have "py_int (strip (stdout r)) = None" .
    with that show False by simp
  qed
  then show ?thesis
    by (auto simp: run calls_of_def result_of_def creation_time_of_def Let_def py_int_line
        strftime_restic_shape strftime_restic_text)
qed

subsection \<open>The command proxy\<close>

text \<open>
  Claim C4, as amended.  When the program was started and completed, \<^verbatim>\<open>run_cmd\<close> of
  the check script returns the completed result whatever the exit status, and so does
  \<^verbatim>\<open>run_cmd\<close> of the backup script when called with \<^verbatim>\<open>check=False\<close>.  With
  \<^verbatim>\<open>check=True\<close>, the default, \<^verbatim>\<open>run_cmd\<close> of the backup script returns the
  result for exit status 0 and raises \<^verbatim>\<open>CalledProcessError\<close> for any other.
\<close>

theorem run_cmd_exit_status_policy:
  fixes sys :: "'w system"
  assumes "spawn sys cmd cap dir w = (Inr r, w')"
  shows "(dir = None \<longrightarrow> run_cmd_cu sys cmd cap w = (Inr r, [issued cmd False cap None (Inr r)], w')) \<and>
         run_cmd sys cmd False cap dir w = (Inr r, [issued cmd False cap dir (Inr r)], w') \<and>
         run_cmd sys cmd True cap dir w =
           (if returncode r = 0 then Inr r else Inl (CalledProcessError (returncode r)),
            [issued cmd True cap dir (Inr r)], w')"
  using assms by (auto simp: run_cmd_cu_def run_cmd_def subprocess_run_def issued_def)

subsection \<open>The backup run\<close>

text \<open>
  Claim C1.  When the restic backup command that \<^verbatim>\<open>main\<close> issued completed with a
  nonzero exit status, \<^verbatim>\<open>main\<close> returns that status; it issues no
  \<^verbatim>\<open>zfs destroy\<close> in the whole run and nothing after the backup command, so the world
  it returns in is the one the backup command left; and the run contains the successful
  creation of the snapshot named for this process.
\<close>

theorem backup_failure_keeps_snapshot:
  fixes sys :: "'w system"
  assumes "c \<in> set (calls_of (main sys proc w))" and "is_backup_call c"
    and "outcome c = Inr r" and "returncode r \<noteq> 0"
  shows "result_of (main sys proc w) = Inr (returncode r) \<and>
         (\<forall>d\<in>set (calls_of (main sys proc w)). \<not> is_destroy_call d) \<and>
         last (calls_of (main sys proc w)) = c \<and>
         (\<exists>ds r0. snapshot_call
                     (ds @ ''@'' @ snap_name_of (getpid proc) (nodename proc) (snap_ts proc)) r0
                   \<in> set (calls_of (main sys proc w)) \<and> returncode r0 = 0) \<and>
         (\<exists>w0. spawn sys (argv c) False (cwd c) w0 = (Inr r, world_of (main sys proc w)))"
proof -
  obtain res cs w' where m: "main sys proc w = (res, cs, w')"
    by (cases "main sys proc w")
  with assms(1) have c: "c \<in> set cs" by (simp add: calls_of_def)
  from m c assms(2) show ?thesis
  proof (cases rule: main_backup_call_cases)
    case (1 restic_cmd source_path args ds cs0 r0 r1 t w2 cs3)
    from 1(9) show ?thesis
    proof (cases rule: main_backup_cases)
      case (stopped out)
      with 1(10) assms(3) have out: "out = Inr r" and c_eq: "c = issued ([restic_cmd, ''backup'', ''--time'', t, ''.''] @ args) False False
          (Some (snapshot_dir_of source_path
             (snap_name_of (getpid proc) (nodename proc) (snap_ts proc)))) out"
        by (auto simp: issued_def)
      from stopped(2) out have "res = Inr (returncode r)"
        by (simp add: raised_or_def)
      moreover from 1(4,5) stopped(1) have "\<forall>d\<in>set cs. \<not> is_destroy_call d"
        by (auto simp: not_destroy_issued)
      moreover from 1(4) stopped(1) c_eq have "last cs = c" by simp
      moreover from 1(4,6) have "\<exists>ds r0. snapshot_call
            (ds @ ''@'' @ snap_name_of (getpid proc) (nodename proc) (snap_ts proc)) r0 \<in> set cs \<and>
            returncode r0 = 0"
        by (auto simp: snapshot_call_def issued_def)
      moreover from stopped(4) out c_eq have "\<exists>w0. spawn sys (argv c) False (cwd c) w0 = (Inr r, w')"
        by (auto simp: issued_def)
      ultimately show ?thesis
        using m by (simp add: result_of_def calls_of_def world_of_def)
    next
      case (destroyed r' w1 out')
      with 1(10) assms(2,3,4) show ?thesis
        by (auto simp: issued_def is_backup_call_def)
    qed
  qed
qed

lemma snapshot_dir_of_text:
  "snapshot_dir_of source_path snap_name =
     (if source_path = [] then []
      else if last source_path = CHR ''/'' then source_path else source_path @ ''/'') @
     ''.zfs/snapshot/'' @ snap_name"
  by (simp add: snapshot_dir_of_def path_join_def)

lemma restic_command_Some:
  assumes "restic_command sys w restic_bin = Some restic_cmd"
  shows "case restic_bin of
           None \<Rightarrow> restic_cmd = ''restic''
         | Some b \<Rightarrow>
             if b = [] then restic_cmd = ''restic''
             else restic_cmd = resolve sys w b \<and> is_file sys w restic_cmd \<and>
                  access_x_ok sys w restic_cmd"
  using assms by (auto simp: restic_command_def Let_def split: option.splits if_splits)

text \<open>
  Claim C8.  Every restic backup command that \<^verbatim>\<open>main\<close> issues is the restic command,
  \<^verbatim>\<open>backup\<close>, \<^verbatim>\<open>--time\<close>, the time resolved from the creation query of this
  run's snapshot, \<^verbatim>\<open>.\<close>, and then the arguments that followed \<^verbatim>\<open>--\<close> on the
  command line, unchanged and last.  The restic command is \<^verbatim>\<open>restic\<close> when no
  binary was given, else the resolved path of the given one, which is an executable file.
  The working directory is the mount point, a slash unless the mount point ends in one,
  and \<^verbatim>\<open>.zfs/snapshot/\<close> followed by the name of the snapshot that this run created
  successfully.
\<close>

theorem backup_invocation_shape:
  fixes sys :: "'w system"
  assumes "c \<in> set (calls_of (main sys proc w))" and "is_backup_call c"
  shows "\<exists>restic_cmd t ds r0 r1.
           restic_command sys w (fst (parse_args (tl (sys_argv proc)))) = Some restic_cmd \<and>
           (case fst (parse_args (tl (sys_argv proc))) of
              None \<Rightarrow> restic_cmd = ''restic''
            | Some b \<Rightarrow>
                if b = [] then restic_cmd = ''restic''
                else restic_cmd = resolve sys w b \<and> is_file sys w restic_cmd \<and>
                     access_x_ok sys w restic_cmd) \<and>
           argv c = [restic_cmd, ''backup'', ''--time'', t, ''.''] @
                      snd (snd (parse_args (tl (sys_argv proc)))) \<and>
           cwd c = Some (snapshot_dir_of (abspath sys (fst (snd (parse_args (tl (sys_argv proc))))))
                           (snap_name_of (getpid proc) (nodename proc) (snap_ts proc))) \<and>
           cwd c = Some ((if abspath sys (fst (snd (parse_args (tl (sys_argv proc))))) = [] then []
                          else if last (abspath sys (fst (snd (parse_args (tl (sys_argv proc)))))) =
                                  CHR ''/''
                          then abspath sys (fst (snd (parse_args (tl (sys_argv proc)))))
                          else abspath sys (fst (snd (parse_args (tl (sys_argv proc))))) @ ''/'') @
                         ''.zfs/snapshot/'' @
                         snap_name_of (getpid proc) (nodename proc) (snap_ts proc)) \<and>
           snapshot_call
             (ds @ ''@'' @ snap_name_of (getpid proc) (nodename proc) (snap_ts proc)) r0
             \<in> set (calls_of (main sys proc w)) \<and>
           returncode r0 = 0 \<and>
           query_call (creation_query
                         (ds @ ''@'' @ snap_name_of (getpid proc) (nodename proc) (snap_ts proc))) r1
             \<in> set (calls_of (main sys proc w)) \<and>
           creation_time_of sys r1 = Inr (Some t)"
proof -
  obtain res cs w' where m: "main sys proc w = (res, cs, w')"
    by (cases "main sys proc w")
  with assms(1) have c: "c \<in> set cs" by (simp add: calls_of_def)
  from m c assms(2) show ?thesis
  proof (cases rule: main_backup_call_cases)
    case (1 restic_cmd source_path args ds cs0 r0 r1 t w2 cs3)
    have q: "query_call (creation_query
               (ds @ ''@'' @ snap_name_of (getpid proc) (nodename proc) (snap_ts proc))) r1 \<in> set cs"
      and s: "snapshot_call
               (ds @ ''@'' @ snap_name_of (getpid proc) (nodename proc) (snap_ts proc)) r0 \<in> set cs"
      using 1(4) by (simp_all add: query_call_def snapshot_call_def issued_def)
    have a: "argv c = [restic_cmd, ''backup'', ''--time'', t, ''.''] @ args \<and>
          cwd c = Some (snapshot_dir_of source_path
                          (snap_name_of (getpid proc) (nodename proc) (snap_ts proc)))"
      using 1(9)
    proof (cases rule: main_backup_cases)
      case (stopped out)
      with 1(10) show ?thesis by (auto simp: issued_def)
    next
      case (destroyed r' w1 out')
      with 1(10) assms(2) show ?thesis by (auto simp: issued_def is_backup_call_def)
    qed
    let ?mp = "abspath sys (fst (snd (parse_args (tl (sys_argv proc)))))"
    let ?sn = "snap_name_of (getpid proc) (nodename proc) (snap_ts proc)"
    from a 1(2,3) have a1: "argv c = [restic_cmd, ''backup'', ''--time'', t, ''.''] @
                      snd (snd (parse_args (tl (sys_argv proc))))"
      and a2: "cwd c = Some (snapshot_dir_of ?mp ?sn)"
      by simp_all
    from a2 have b: "cwd c = Some ((if ?mp = [] then []
                          else if last ?mp = CHR ''/'' then ?mp else ?mp @ ''/'') @
                         ''.zfs/snapshot/'' @ ?sn)"
      by (simp only: snapshot_dir_of_text)
    from q s m have q': "query_call (creation_query (ds @ ''@'' @ ?sn)) r1
                           \<in> set (calls_of (main sys proc w))"
      and s': "snapshot_call (ds @ ''@'' @ ?sn) r0 \<in> set (calls_of (main sys proc w))"
      by (simp_all add: calls_of_def)
    note rc = restic_command_Some [OF 1(1)]
    from 1(1) rc a1 a2 b s' 1(6) q' 1(7) show ?thesis
      by blast
  qed
qed

text \<open>
  The cleanup that \<^verbatim>\<open>main\<close> does: when the snapshot was created and then
  \<^verbatim>\<open>get_snapshot_creation_time\<close> returned without a time, or the snapshot directory
  does not exist, \<^verbatim>\<open>main\<close> issues \<^verbatim>\<open>zfs destroy\<close> for that snapshot with
  \<^verbatim>\<open>check=False\<close> as its last call, and returns 1 whatever the exit status of the
  destroy command (it raises only when \<^verbatim>\<open>zfs\<close> could not be started).  This does not
  cover a \<^verbatim>\<open>get_snapshot_creation_time\<close> that raises.
\<close>

lemma snapshot_cleanup_on_failure:
  fixes sys :: "'w system"
  assumes pre: "main_preflight sys proc w =
                  (Inr (Continue (restic_cmd, source_path, snap_name, args)), cs1, w1)"
    and lock: "main_lock_check sys source_path w1 = (Inr (Continue ds), cs2, w2)"
    and snap: "spawn sys [''zfs'', ''snapshot'', ds @ ''@'' @ snap_name] False None w2 = (Inr r0, w3)"
    and ok: "returncode r0 = 0"
    and time: "get_snapshot_creation_time sys (ds @ ''@'' @ snap_name) w3 = (Inr t, cs4, w4)"
    and fail: "\<not> truthy t \<or> \<not> is_dir sys w4 (snapshot_dir_of source_path snap_name)"
    and destroy: "spawn sys [''zfs'', ''destroy'', ds @ ''@'' @ snap_name] False None w4 = (out, w5)"
  shows "main sys proc w =
           (raised_or out 1,
            cs1 @ cs2 @ [snapshot_call (ds @ ''@'' @ snap_name) r0] @ cs4 @
            [issued [''zfs'', ''destroy'', ds @ ''@'' @ snap_name] False False None out], w5) \<and>
         (\<forall>r. out = Inr r \<longrightarrow> result_of (main sys proc w) = Inr 1)"
proof -
  let ?spec = "ds @ ''@'' @ snap_name"
  let ?D = "seq (run_cmd sys [''zfs'', ''destroy'', ?spec] False False None) (\<lambda>_. ret (1::int))"
  let ?R = "(raised_or out (1::int), [issued [''zfs'', ''destroy'', ?spec] False False None out], w5)"
  have d: "?D w4 = ?R"
    using destroy by (cases out) (simp_all add: run_defs issued_def raised_or_def)
  have body: "(if \<not> truthy t then ?D
               else (\<lambda>w. if \<not> is_dir sys w (snapshot_dir_of source_path snap_name) then ?D w
                          else main_backup sys restic_cmd (fmt_opt t) args
                                 (snapshot_dir_of source_path snap_name) ?spec w)) w4 = ?R"
    using fail d by (cases "truthy t") simp_all
  have c0: "run_cmd sys [''zfs'', ''snapshot'', ?spec] True False None w2 =
              (Inr r0, [snapshot_call ?spec r0], w3)"
    using run_cmd_completed [OF snap, of True] ok by (simp add: snapshot_call_def)
  have "main_snapshot sys restic_cmd args source_path ds snap_name w2 =
          (raised_or out 1,
           [snapshot_call ?spec r0] @ cs4 @
           [issued [''zfs'', ''destroy'', ?spec] False False None out], w5)"
  proof -
    let ?F = "\<lambda>restic_time.
                if \<not> truthy restic_time then ?D
                else (\<lambda>w. if \<not> is_dir sys w (snapshot_dir_of source_path snap_name) then ?D w
                           else main_backup sys restic_cmd (fmt_opt restic_time) args
                                  (snapshot_dir_of source_path snap_name) ?spec w)"
    note s2 = seq_returned [where m = "get_snapshot_creation_time sys ?spec" and f = ?F and x = t,
        OF time body]
    note s1 = seq_returned [where m = "run_cmd sys [''zfs'', ''snapshot'', ?spec] True False None"
        and f = "\<lambda>_. seq (get_snapshot_creation_time sys ?spec) ?F" and x = r0, OF c0 s2]
    show ?thesis
      unfolding main_snapshot_def Let_def by (rule s1)
  qed
  then have "(case Continue ds of
                Return n \<Rightarrow> ret n
              | Continue ds \<Rightarrow> main_snapshot sys restic_cmd args source_path ds snap_name) w2 =
          (raised_or out 1,
           [snapshot_call ?spec r0] @ cs4 @
           [issued [''zfs'', ''destroy'', ?spec] False False None out], w5)"
    by simp
  from seq_returned [where m = "main_lock_check sys source_path" and x = "Continue ds"
      and f = "\<lambda>s. case s of
                     Return n \<Rightarrow> ret n
                   | Continue ds \<Rightarrow>
                       main_snapshot sys restic_cmd args source_path ds snap_name", OF lock this]
  have "(case Continue (restic_cmd, source_path, snap_name, args) of
           Return n \<Rightarrow> ret n
         | Continue (restic_cmd, source_path, snap_name, restic_cli_args) \<Rightarrow>
             seq (main_lock_check sys source_path)
               (\<lambda>s. case s of
                       Return n \<Rightarrow> ret n
                     | Continue ds \<Rightarrow>
                         main_snapshot sys restic_cmd restic_cli_args source_path ds snap_name)) w1 =
          (raised_or out 1,
           cs2 @ [snapshot_call ?spec r0] @ cs4 @
           [issued [''zfs'', ''destroy'', ?spec] False False None out], w5)"
    by simp
  from seq_returned [where m = "main_preflight sys proc"
      and x = "Continue (restic_cmd, source_path, snap_name, args)"
      and f = "\<lambda>s. case s of
                 Return n \<Rightarrow> ret n
               | Continue (restic_cmd, source_path, snap_name, restic_cli_args) \<Rightarrow>
                   seq (main_lock_check sys source_path)
                     (\<lambda>s. case s of
                             Return n \<Rightarrow> ret n
                           | Continue ds \<Rightarrow>
                               main_snapshot sys restic_cmd restic_cli_args source_path ds
                                 snap_name)", OF pre this]
  have "main sys proc w =
           (raised_or out 1,
            cs1 @ cs2 @ [snapshot_call ?spec r0] @ cs4 @
            [issued [''zfs'', ''destroy'', ?spec] False False None out], w5)"
    by (simp add: main_def)
  then show ?thesis
    by (simp add: result_of_def raised_or_def)
qed

subsection \<open>The encryption state\<close>



subsection \<open>The check script\<close>

lemma check_path_message_nonempty:
  fixes sys :: "'w system"
  assumes "check_path sys p w = (Inr (Some m), cs, w')"
  shows "m \<noteq> []"
proof -
  let ?resolved = "abspath sys p"
  obtain r0 cs0 w0 where a: "get_dataset_for_path_cu sys ?resolved w = (r0, cs0, w0)"
    by (cases "get_dataset_for_path_cu sys ?resolved w")
  show ?thesis
  proof (cases "\<exists>ds. r0 = Inr ds \<and> truthy ds")
    case False
    with assms a show ?thesis
      by (cases r0) (auto simp: check_path_def Let_def seq_def ret_def msg_no_dataset_def)
  next
    case True
    then obtain ds where ds: "r0 = Inr ds" "truthy ds" by blast
    obtain r1 cs1 w1 where b: "get_encryption_root_cu sys (fmt_opt ds) w0 = (r1, cs1, w1)"
      by (cases "get_encryption_root_cu sys (fmt_opt ds) w0")
    show ?thesis
    proof (cases "\<exists>root. r1 = Inr root \<and> truthy root")
      case False
      with assms a ds b show ?thesis
        by (cases r1) (auto simp: check_path_def Let_def seq_def ret_def)
    next
      case True
      then obtain root where root: "r1 = Inr root" "truthy root" by blast
      obtain r2 cs2 w2 where c: "get_keystatus_cu sys (fmt_opt root) w1 = (r2, cs2, w2)"
        by (cases "get_keystatus_cu sys (fmt_opt root) w1")
      from assms a ds b root c show ?thesis
        by (cases r2)
           (auto simp: check_path_def Let_def seq_def ret_def msg_locked_def msg_unexpected_def
            split: if_splits)
    qed
  qed
qed

lemma check_paths_quiet:
  fixes sys :: "'w system"
  assumes "\<forall>p\<in>set ps. checks_quietly sys w p"
  shows "check_paths sys ps failed w =
           (Inr (failed \<or> \<not> (\<forall>p\<in>set ps. path_ok sys w p)),
            concat (map (path_messages sys w) ps),
            concat (map (\<lambda>p. if strip p = [] then [] else calls_of (check_path sys (strip p) w)) ps),
            w)"
  using assms
proof (induction ps arbitrary: failed)
  case Nil
  then show ?case by simp
next
  case (Cons p ps)
  show ?case
  proof (cases "strip p = []")
    case True
    with Cons show ?thesis
      by (simp add: path_ok_def path_messages_def)
  next
    case False
    with Cons.prems obtain v cs where run: "check_path sys (strip p) w = (Inr v, cs, w)"
      by (cases "check_path sys (strip p) w"; cases "fst (check_path sys (strip p) w)")
         (auto simp: checks_quietly_def world_of_def result_of_def)
    have tr: "truthy v \<longleftrightarrow> v \<noteq> None"
    proof (cases v)
      case None
      then show ?thesis by (simp add: truthy_def)
    next
      case (Some m)
      with run have "check_path sys (strip p) w = (Inr (Some m), cs, w)" by simp
      from check_path_message_nonempty [OF this] Some show ?thesis
        by (simp add: truthy_def)
    qed
    from Cons.prems have rest: "\<forall>p\<in>set ps. checks_quietly sys w p" by simp
    show ?thesis
    proof (cases v)
      case None
      with False run tr Cons.IH [OF rest, of failed] show ?thesis
        by (simp add: Let_def path_ok_def path_messages_def result_of_def calls_of_def)
    next
      case (Some m)
      with False run tr Cons.IH [OF rest, of True] show ?thesis
        by (simp add: Let_def path_ok_def path_messages_def result_of_def calls_of_def fmt_opt_def)
    qed
  qed
qed

text \<open>
  Claim C9, as amended.  With one or more path arguments, of which those that are blank
  after trimming are skipped, the check script exits 0 when every other path passes
  \<^verbatim>\<open>check_path\<close> and 1 otherwise; it prints the message of each failing path, in
  order, one for each, and checks all paths.
\<close>

theorem lock_check_exit_status:
  fixes sys :: "'w system"
  assumes "paths \<noteq> []" and "\<forall>p\<in>set paths. checks_quietly sys w p"
  shows "exit_of (main_cu sys (prog # paths) w) =
           Inr (if \<forall>p\<in>set paths. path_ok sys w p then 0 else 1) \<and>
         stderr_of (main_cu sys (prog # paths) w) = concat (map (path_messages sys w) paths) \<and>
         (\<forall>p\<in>set paths. length (path_messages sys w p) = (if path_ok sys w p then 0 else 1))"
proof -
  have "length (path_messages sys w p) = (if path_ok sys w p then 0 else 1)"
    if "p \<in> set paths" for p
  proof (cases "strip p = []")
    case True
    then show ?thesis by (simp add: path_messages_def path_ok_def)
  next
    case False
    with assms(2) that obtain v where "result_of (check_path sys (strip p) w) = Inr v"
      by (cases "result_of (check_path sys (strip p) w)") (auto simp: checks_quietly_def)
    with False show ?thesis
      by (cases v) (simp_all add: path_messages_def path_ok_def)
  qed
  with assms(1) check_paths_quiet [OF assms(2), of False] show ?thesis
    by (cases paths) (simp_all add: main_cu_def exit_of_def stderr_of_def)
qed

subsection \<open>Dataset resolution\<close>

text \<open>
  On the lines it reads, the loop of \<^verbatim>\<open>get_dataset_for_path\<close> matches exactly: it
  returns a name only for a line that is the name, a TAB and the path, and it returns
  \<open>None\<close> only when no line is of that form.
\<close>

lemma split_tab_join:
  assumes "TAB \<in> set line"
  shows "line = fst (split_tab line) @ TAB # snd (split_tab line) \<and> TAB \<notin> set (fst (split_tab line))"
proof -
  from assms have "dropWhile (\<lambda>c. c \<noteq> TAB) line \<noteq> []"
    by (simp add: dropWhile_eq_Nil_conv)
  then obtain d ds where d: "dropWhile (\<lambda>c. c \<noteq> TAB) line = d # ds"
    by (cases "dropWhile (\<lambda>c. c \<noteq> TAB) line") auto
  with hd_dropWhile [of "\<lambda>c. c \<noteq> TAB" line] have "d = TAB" by simp
  with d takeWhile_dropWhile_id [of "\<lambda>c. c \<noteq> TAB" line]
  have "line = takeWhile (\<lambda>c. c \<noteq> TAB) line @ TAB # ds" by simp
  moreover have "TAB \<notin> set (takeWhile (\<lambda>c. c \<noteq> TAB) line)"
    by (auto dest: set_takeWhileD)
  ultimately show ?thesis
    using d by (simp add: split_tab_def)
qed

lemma split_tab_unique:
  assumes "TAB \<notin> set name"
  shows "split_tab (name @ TAB # mnt) = (name, mnt)"
proof -
  from assms have "\<forall>c\<in>set name. c \<noteq> TAB" by auto
  then have "takeWhile (\<lambda>c. c \<noteq> TAB) (name @ TAB # mnt) = name"
    and "dropWhile (\<lambda>c. c \<noteq> TAB) (name @ TAB # mnt) = TAB # mnt"
    by (simp_all add: takeWhile_append dropWhile_append)
  then show ?thesis
    by (simp add: split_tab_def)
qed

lemma find_mountpoint_Some:
  "find_mountpoint path lines = Some name \<Longrightarrow> name @ TAB # path \<in> set lines \<and> TAB \<notin> set name"
proof (induction lines)
  case Nil
  then show ?case by simp
next
  case (Cons line rest)
  show ?case
  proof (cases "TAB \<in> set line \<and> snd (split_tab line) = path")
    case True
    with Cons.prems have "name = fst (split_tab line)"
      by (simp split: prod.splits)
    with True split_tab_join [of line] show ?thesis
      by auto
  next
    case False
    with Cons.prems have "find_mountpoint path rest = Some name"
      by (auto split: prod.splits if_splits)
    with Cons.IH show ?thesis by simp
  qed
qed

lemma find_mountpoint_None:
  "find_mountpoint path lines = None \<Longrightarrow> TAB \<notin> set name \<Longrightarrow> name @ TAB # path \<notin> set lines"
proof (induction lines)
  case Nil
  then show ?case by simp
next
  case (Cons line rest)
  have "line \<noteq> name @ TAB # path"
  proof
    assume "line = name @ TAB # path"
    with Cons.prems(2) split_tab_unique [of name path] Cons.prems(1) show False
      by simp
  qed
  moreover from Cons.prems(1) have "find_mountpoint path rest = None"
    by (auto split: prod.splits if_splits)
  ultimately show ?case
    using Cons.IH Cons.prems(2) by simp
qed

section \<open>Runs on the simulated system\<close>

text \<open>The definitions that a run on a concrete input unfolds.\<close>

lemmas sim_defs = sim_system_def sim_spawn_def sim_scenario_def sim_process_def sim_snap_name_def
  sim_fromtimestamp_def answer_def
lemmas py_defs = strip_def strip_chars_def is_space_def is_linebreak_def splitlines_def split_tab_def
  is_digit_def digit_val_def digit_char_def str_int_def py_int_def int_unsigned_def zero_pad_def
  strftime_restic_def strftime_snap_def is_host_char_def hostname_of_def snap_name_of_def
  parse_args_def str_nat.simps
lemmas io_defs = ret_def seq_def subprocess_run_def run_cmd_def run_cmd_cu_def truthy_def fmt_opt_def
  result_of_def calls_of_def world_of_def exit_of_def stderr_of_def Let_def
  issued_def query_call_def snapshot_call_def raised_or_def
  list_query_def creation_query_def encryptionroot_query_def keystatus_query_def
lemmas script_defs = main_def main_preflight_def restic_command_def main_lock_check_def
  main_snapshot_def main_backup_def get_dataset_for_path_def get_encryption_root_def
  get_keystatus_def get_snapshot_creation_time_def creation_time_of_def snapshot_dir_of_def
  path_join_def get_dataset_for_path_cu_def get_encryption_root_cu_def get_keystatus_cu_def
  check_path_def main_cu_def msg_no_dataset_def msg_locked_def msg_unexpected_def
lemmas eval_defs = sim_defs py_defs io_defs script_defs

text \<open>A creation time in nanoseconds, \<^verbatim>\<open>1718454896000000000\<close>, is resolved to
  \<^verbatim>\<open>2024-06-15 12:34:56\<close>.\<close>

theorem creation_time_resolution_witness:
  "result_of (get_snapshot_creation_time
                (sim_system (sim_scenario\<lparr>sc_creation := ''1718454896000000000'' @ [LF]\<rparr>))
                ''tank/data@s'' []) =
     Inr (Some ''2024-06-15 12:34:56'')"
proof -
  let ?S = "sim_system (sim_scenario\<lparr>sc_creation := ''1718454896000000000'' @ [LF]\<rparr>)"
  let ?r = "answer 0 (''1718454896000000000'' @ [LF])"
  let ?dt = "\<lparr>year = 2024, month = 6, day = 15, hour = 12, minute = 34, second = 56,
              microsecond = 0\<rparr>"
  have sp: "spawn ?S (creation_query ''tank/data@s'') True None [] = (Inr ?r, [])"
    by (simp add: sim_defs creation_query_def)
  have h: "returncode ?r = 0 \<and> py_int (strip (stdout ?r)) = Some 1718454896000000000 \<and>
        fromtimestamp ?S
          (if (1718454896000000000::int) > 10 ^ 12 then 1718454896000000000 div 10 ^ 9
           else 1718454896000000000) = Inr ?dt"
    by (simp add: sim_defs py_defs)
  have v: "valid_datetime ?dt"
    by (simp add: valid_datetime_def)
  from creation_time_resolution [OF sp] h v
  have "result_of (get_snapshot_creation_time ?S ''tank/data@s'' []) =
          Inr (Some (strftime_restic ?dt)) \<and>
        map of_char (strftime_restic ?dt) =
          [48 + year ?dt div 1000, 48 + year ?dt div 100 mod 10, 48 + year ?dt div 10 mod 10,
           48 + year ?dt mod 10, 45,
           48 + month ?dt div 10, 48 + month ?dt mod 10, 45,
           48 + day ?dt div 10, 48 + day ?dt mod 10, 32,
           48 + hour ?dt div 10, 48 + hour ?dt mod 10, 58,
           48 + minute ?dt div 10, 48 + minute ?dt mod 10, 58,
           48 + second ?dt div 10, 48 + second ?dt mod 10 :: nat]"
    by blast
  then have res: "result_of (get_snapshot_creation_time ?S ''tank/data@s'' []) =
          Inr (Some (strftime_restic ?dt))"
    and "map of_char (strftime_restic ?dt) = map (of_char :: char \<Rightarrow> nat) ''2024-06-15 12:34:56''"
    by simp_all
  then have "strftime_restic ?dt = ''2024-06-15 12:34:56''"
    by (intro inj_map_eq_map [OF inj_of_char, THEN iffD1])
  with res show ?thesis
    by (simp only:)
qed

text \<open>
  A restic command that exits with 3 is returned as completed under \<^verbatim>\<open>check=False\<close>.
  The snapshot command of \<^verbatim>\<open>main\<close> runs under \<^verbatim>\<open>check=True\<close>: when
  \<^verbatim>\<open>zfs snapshot\<close> exits with 1, \<^verbatim>\<open>run_cmd\<close> raises, and so does \<^verbatim>\<open>main\<close>.
\<close>

theorem run_cmd_exit_status_policy_witness:
  "result_of (run_cmd (sim_system (sim_scenario\<lparr>sc_restic_exit := 3\<rparr>))
                [''restic'', ''backup'', ''.''] False False (Some ''/mnt/data'') []) =
     Inr (answer 3 [])"
proof -
  have "spawn (sim_system (sim_scenario\<lparr>sc_restic_exit := 3\<rparr>)) [''restic'', ''backup'', ''.'']
          False (Some ''/mnt/data'') [] = (Inr (answer 3 []), [])"
    by (simp add: sim_defs)
  from run_cmd_exit_status_policy [OF this] show ?thesis
    by (simp add: result_of_def)
qed

theorem run_cmd_check_raises:
  "result_of (run_cmd (sim_system (sim_scenario\<lparr>sc_snapshot_exit := 1\<rparr>))
                [''zfs'', ''snapshot'', ''tank/data@s''] True False None []) =
     Inl (CalledProcessError 1) \<and>
   result_of (main (sim_system (sim_scenario\<lparr>sc_snapshot_exit := 1\<rparr>)) sim_process []) =
     Inl (CalledProcessError 1)"
  by (simp add: eval_defs)

text \<open>
  A run in which restic exits with 3: \<^verbatim>\<open>main\<close> returns 3 and the snapshot is still
  there.
\<close>

theorem backup_failure_keeps_snapshot_witness:
  "result_of (main (sim_system (sim_scenario\<lparr>sc_restic_exit := 3\<rparr>)) sim_process []) = Inr 3 \<and>
   world_of (main (sim_system (sim_scenario\<lparr>sc_restic_exit := 3\<rparr>)) sim_process []) =
     [''tank/data@'' @ sim_snap_name]"
proof -
  let ?S = "sim_system (sim_scenario\<lparr>sc_restic_exit := 3\<rparr>)"
  let ?c = "issued [''restic'', ''backup'', ''--time'', ''2024-01-01 00:00:00'', ''.'', ''--tag'',
                    ''nightly''] False False (Some (''/mnt/data/.zfs/snapshot/'' @ sim_snap_name))
              (Inr (answer 3 []))"
  have 1: "?c \<in> set (calls_of (main ?S sim_process []))"
    by (simp add: eval_defs)
  have 2: "is_backup_call ?c" and 3: "outcome ?c = Inr (answer 3 [])"
    and 4: "returncode (answer 3 []) \<noteq> 0"
    by (simp_all add: is_backup_call_def issued_def answer_def)
  from backup_failure_keeps_snapshot [OF 1 2 3 4]
  have "result_of (main ?S sim_process []) = Inr (returncode (answer 3 []))"
    by blast
  moreover have "world_of (main ?S sim_process []) = [''tank/data@'' @ sim_snap_name]"
    by (simp add: eval_defs)
  ultimately show ?thesis
    by (simp add: answer_def)
qed

text \<open>A successful run: the time handed to restic is the one resolved from the creation
  query, and restic runs in the directory of the snapshot.\<close>

theorem backup_invocation_shape_witness:
  "(\<exists>ds r1. query_call (creation_query (ds @ ''@'' @ sim_snap_name)) r1
              \<in> set (calls_of (main (sim_system sim_scenario) sim_process [])) \<and>
            creation_time_of (sim_system sim_scenario) r1 = Inr (Some ''2024-01-01 00:00:00'')) \<and>
   (\<exists>c\<in>set (calls_of (main (sim_system sim_scenario) sim_process [])).
      argv c = [''restic'', ''backup'', ''--time'', ''2024-01-01 00:00:00'', ''.'', ''--tag'',
                ''nightly''] \<and>
      cwd c = Some ''/mnt/data/.zfs/snapshot/zfs-restic-4711-nas-20240102-030405'')"
proof -
  let ?S = "sim_system sim_scenario"
  let ?c = "issued [''restic'', ''backup'', ''--time'', ''2024-01-01 00:00:00'', ''.'', ''--tag'',
                    ''nightly''] False False (Some (''/mnt/data/.zfs/snapshot/'' @ sim_snap_name))
              (Inr (answer 0 []))"
  have 1: "?c \<in> set (calls_of (main ?S sim_process []))"
    by (simp add: eval_defs)
  have 2: "is_backup_call ?c"
    by (simp add: is_backup_call_def issued_def)
  have 3: "snap_name_of (getpid sim_process) (nodename sim_process) (snap_ts sim_process) =
             sim_snap_name"
    by (simp add: sim_defs py_defs)
  from backup_invocation_shape [OF 1 2]
  have "\<exists>ds r1. query_call (creation_query (ds @ ''@'' @ sim_snap_name)) r1
              \<in> set (calls_of (main ?S sim_process [])) \<and>
            creation_time_of ?S r1 = Inr (Some ''2024-01-01 00:00:00'')"
    unfolding 3 by (auto simp: issued_def)
  moreover have "argv ?c = [''restic'', ''backup'', ''--time'', ''2024-01-01 00:00:00'', ''.'',
                            ''--tag'', ''nightly''] \<and>
                 cwd ?c = Some ''/mnt/data/.zfs/snapshot/zfs-restic-4711-nas-20240102-030405''"
    by (simp add: issued_def sim_snap_name_def)
  ultimately show ?thesis
    using 1 by blast
qed

text \<open>
  A run in which the creation time cannot be read: \<^verbatim>\<open>main\<close> returns 1 and the
  snapshot is gone.
\<close>

lemma snapshot_cleanup_run:
  "result_of (main (sim_system (sim_scenario\<lparr>sc_creation := ''unknown''\<rparr>)) sim_process []) = Inr 1 \<and>
   world_of (main (sim_system (sim_scenario\<lparr>sc_creation := ''unknown''\<rparr>)) sim_process []) = []"
proof -
  let ?S = "sim_system (sim_scenario\<lparr>sc_creation := ''unknown''\<rparr>)"
  let ?spec = "''tank/data'' @ ''@'' @ sim_snap_name"
  have pre: "main_preflight ?S sim_process [] =
               (Inr (Continue (''restic'', ''/mnt/data'', sim_snap_name, [''--tag'', ''nightly''])),
                calls_of (main_preflight ?S sim_process []), [])"
    by (simp add: eval_defs)
  have lock: "main_lock_check ?S ''/mnt/data'' [] =
                (Inr (Continue ''tank/data''), calls_of (main_lock_check ?S ''/mnt/data'' []), [])"
    by (simp add: eval_defs)
  have snap: "spawn ?S [''zfs'', ''snapshot'', ?spec] False None [] = (Inr (answer 0 []), [?spec])"
    and ok: "returncode (answer 0 []) = 0"
    by (simp_all add: sim_defs)
  have time: "get_snapshot_creation_time ?S ?spec [?spec] =
                (Inr None, calls_of (get_snapshot_creation_time ?S ?spec [?spec]), [?spec])"
    by (simp add: eval_defs)
  have fail: "\<not> truthy None \<or> \<not> is_dir ?S [?spec] (snapshot_dir_of ''/mnt/data'' sim_snap_name)"
    by (simp add: truthy_def)
  have destroy: "spawn ?S [''zfs'', ''destroy'', ?spec] False None [?spec] = (Inr (answer 0 []), [])"
    by (simp add: sim_defs)
  from snapshot_cleanup_on_failure [OF pre lock snap ok time fail destroy] show ?thesis
    by (simp add: result_of_def world_of_def raised_or_def)
qed

text \<open>
  Claim C2.  After a successful snapshot, a failed resolution of the creation time is to be
  followed by \<^verbatim>\<open>zfs destroy\<close> of the snapshot and exit status 1.  Two runs in which the
  resolution fails by raising: the creation query prints \<open>10 ^ 30\<close>, which
  \<^verbatim>\<open>int()\<close> accepts and \<^verbatim>\<open>datetime.fromtimestamp\<close> refuses with
  \<^verbatim>\<open>OverflowError\<close>, an exception that the \<^verbatim>\<open>except (ValueError, OSError)\<close> of
  \<^verbatim>\<open>get_snapshot_creation_time\<close> does not catch; and \<^verbatim>\<open>zfs\<close> cannot be started
  for the creation query.  In both, \<^verbatim>\<open>main\<close> raises, issues no \<^verbatim>\<open>zfs destroy\<close>,
  and the snapshot remains.
\<close>

theorem creation_time_raises_leaves_snapshot:
  "result_of (main (sim_system (sim_scenario\<lparr>sc_creation :=
                ''1000000000000000000000000000000'' @ [LF]\<rparr>)) sim_process []) =
     Inl OverflowError \<and>
   filter is_destroy_call
     (calls_of (main (sim_system (sim_scenario\<lparr>sc_creation :=
                ''1000000000000000000000000000000'' @ [LF]\<rparr>)) sim_process [])) = [] \<and>
   world_of (main (sim_system (sim_scenario\<lparr>sc_creation :=
                ''1000000000000000000000000000000'' @ [LF]\<rparr>)) sim_process []) =
     [''tank/data@'' @ sim_snap_name] \<and>
   result_of (main (sim_system (sim_scenario\<lparr>sc_creation_error := Some OtherOSError\<rparr>))
                sim_process []) = Inl (OSError OtherOSError) \<and>
   filter is_destroy_call
     (calls_of (main (sim_system (sim_scenario\<lparr>sc_creation_error := Some OtherOSError\<rparr>))
                sim_process [])) = [] \<and>
   world_of (main (sim_system (sim_scenario\<lparr>sc_creation_error := Some OtherOSError\<rparr>))
                sim_process []) = [''tank/data@'' @ sim_snap_name]"
  by (simp add: eval_defs is_destroy_call_def)


text \<open>
  Claim C7.  The listing holds one dataset, \<^verbatim>\<open>tank/x\<close>, mounted at \<^verbatim>\<open>/mnt/a\<close>
  followed by a space.  The output is trimmed as a whole before it is split into lines, so
  the last mount point loses the space: the path \<^verbatim>\<open>/mnt/a\<close>, which is no mount point of
  the listing, resolves to \<^verbatim>\<open>tank/x\<close>, and the mount point itself resolves to nothing.
  Both scripts do the same.
\<close>

theorem trailing_space_mountpoint:
  "result_of (get_dataset_for_path
                (sim_system (sim_scenario\<lparr>sc_listing := ''tank/x'' @ [TAB] @ ''/mnt/a '' @ [LF]\<rparr>))
                ''/mnt/a'' []) = Inr (Some ''tank/x'') \<and>
   result_of (get_dataset_for_path
                (sim_system (sim_scenario\<lparr>sc_listing := ''tank/x'' @ [TAB] @ ''/mnt/a '' @ [LF]\<rparr>))
                ''/mnt/a '' []) = Inr None \<and>
   result_of (get_dataset_for_path_cu
                (sim_system (sim_scenario\<lparr>sc_listing := ''tank/x'' @ [TAB] @ ''/mnt/a '' @ [LF]\<rparr>))
                ''/mnt/a'' []) = Inr (Some ''tank/x'')"
  by (simp add: eval_defs)

text \<open>
  A path argument that is blank: the check script skips it and exits 0 without a message,
  although \<^verbatim>\<open>check_path\<close> finds no dataset for it, trimmed or not.
\<close>

theorem blank_path_exit_zero:
  "exit_of (main_cu (sim_system (sim_scenario\<lparr>sc_listing := []\<rparr>))
              [''zfs-check-unlocked.py'', '' ''] []) = Inr 0 \<and>
   stderr_of (main_cu (sim_system (sim_scenario\<lparr>sc_listing := []\<rparr>))
              [''zfs-check-unlocked.py'', '' ''] []) = [] \<and>
   result_of (check_path (sim_system (sim_scenario\<lparr>sc_listing := []\<rparr>)) '' '' []) =
     Inr (Some (msg_no_dataset '' '')) \<and>
   result_of (check_path (sim_system (sim_scenario\<lparr>sc_listing := []\<rparr>)) [] []) =
     Inr (Some (msg_no_dataset []))"
  by (simp add: eval_defs)

text \<open>Three path arguments, one locked, one blank, one unknown: exit status 1 and two
  messages.\<close>

theorem lock_check_exit_status_witness:
  "exit_of (main_cu (sim_system (sim_scenario\<lparr>sc_keystatus := ''locked'' @ [LF]\<rparr>))
              [''zfs-check-unlocked.py'', ''/mnt/data'', '' '', ''/mnt/other''] []) = Inr 1 \<and>
   stderr_of (main_cu (sim_system (sim_scenario\<lparr>sc_keystatus := ''locked'' @ [LF]\<rparr>))
              [''zfs-check-unlocked.py'', ''/mnt/data'', '' '', ''/mnt/other''] []) =
     [msg_locked ''/mnt/data'' ''tank/data'', msg_no_dataset ''/mnt/other'']"
proof -
  let ?S = "sim_system (sim_scenario\<lparr>sc_keystatus := ''locked'' @ [LF]\<rparr>)"
  let ?paths = "[''/mnt/data'', '' '', ''/mnt/other'']"
  have 1: "?paths \<noteq> []" by simp
  have 2: "\<forall>p\<in>set ?paths. checks_quietly ?S [] p"
    by (simp add: checks_quietly_def eval_defs)
  have 3: "\<not> path_ok ?S [] ''/mnt/data''"
    by (simp add: path_ok_def eval_defs)
  have 4: "concat (map (path_messages ?S []) ?paths) =
             [msg_locked ''/mnt/data'' ''tank/data'', msg_no_dataset ''/mnt/other'']"
    by (simp add: path_messages_def eval_defs)
  from lock_check_exit_status [OF 1 2, of "''zfs-check-unlocked.py''"] 3 4 show ?thesis
    by simp
qed

end
